theory Spec2Isabelle
  imports Complex_Main "HOL-Library.AList" "HOL-Library.Sublist"
begin

section \<open>Python values, exceptions and dictionaries\<close>

text \<open>
  The agentic document pipeline (\<^verbatim>\<open>agentic_idp.py\<close>, \<^verbatim>\<open>exteral_service.py\<close>,
  \<^verbatim>\<open>decision.py\<close>) and the embedding resizer (\<^verbatim>\<open>embedding_retriever.py\<close>) are embedded
  as HOL functions. A Python exception is a value of \<open>py_exn\<close> carrying its message
  (what \<^verbatim>\<open>str(e)\<close> gives), and a computation that may raise returns \<open>py_exn + 'a\<close>
  with \<open>Inl\<close> for the raised exception. Strings are byte strings: the character
  predicates (whitespace, case, word characters) are the ASCII ones. Python floats that
  come from decimal literals are modelled as exact rationals, the floats of the embedding
  code as reals; binary rounding is not modelled.
\<close>

datatype py_exn =
    IndexError string
  | KeyError string
  | AttributeError string
  | TypeError string
  | ValueError string
  | JSONDecodeError string
  | UnboundLocalError string
  | ZeroDivisionError string
  | OtherException string

fun str_exn :: "py_exn \<Rightarrow> string" where
  "str_exn (IndexError m) = m"
| "str_exn (KeyError m) = m"
| "str_exn (AttributeError m) = m"
| "str_exn (TypeError m) = m"
| "str_exn (ValueError m) = m"
| "str_exn (JSONDecodeError m) = m"
| "str_exn (UnboundLocalError m) = m"
| "str_exn (ZeroDivisionError m) = m"
| "str_exn (OtherException m) = m"

text \<open>\<^verbatim>\<open>except json.JSONDecodeError\<close> catches this one class only.\<close>

fun is_JSONDecodeError :: "py_exn \<Rightarrow> bool" where
  "is_JSONDecodeError (JSONDecodeError m) = True"
| "is_JSONDecodeError e = False"

definition try_bind :: "py_exn + 'a \<Rightarrow> ('a \<Rightarrow> py_exn + 'b) \<Rightarrow> py_exn + 'b" where
  "try_bind x f = (case x of Inl e \<Rightarrow> Inl e | Inr v \<Rightarrow> f v)"

text \<open>
  What \<^verbatim>\<open>json.loads\<close> returns and what the service dictionaries hold: \<open>JNull\<close> is
  Python's \<^verbatim>\<open>None\<close>, a \<open>JObj\<close> is a \<^verbatim>\<open>dict\<close> in insertion order.
\<close>

datatype json =
    JNull
  | JBool bool
  | JNum rat
  | JStr string
  | JArr "json list"
  | JObj "(string \<times> json) list"

type_synonym pydict = "(string \<times> json) list"

text \<open>An object handed to a function that expects a \<^verbatim>\<open>str\<close>: a message's content, an argument.\<close>

datatype pyobj =
    PyStr string
  | PyNone
  | PyList "pyobj list"

text \<open>\<^verbatim>\<open>{**a, **b}\<close> and \<^verbatim>\<open>dict.update\<close>: a key already there keeps its place.\<close>

definition dict_merge :: "pydict \<Rightarrow> pydict \<Rightarrow> pydict" where
  "dict_merge d1 d2 = fold (\<lambda>(k, v). AList.update k v) d2 d1"

text \<open>\<^verbatim>\<open>obj.get(key, default)\<close>: only a dict has the method.\<close>

fun json_get :: "json \<Rightarrow> string \<Rightarrow> json \<Rightarrow> py_exn + json" where
  "json_get (JObj kvs) k d = Inr (case map_of kvs k of None \<Rightarrow> d | Some v \<Rightarrow> v)"
| "json_get j k d = Inl (AttributeError ''object has no attribute get'')"

text \<open>\<^verbatim>\<open>value < bound\<close> for a float bound: numbers and booleans compare, the rest raises.\<close>

fun py_less :: "json \<Rightarrow> rat \<Rightarrow> py_exn + bool" where
  "py_less (JNum r) q = Inr (r < q)"
| "py_less (JBool b) q = Inr ((if b then 1 else 0) < q)"
| "py_less j q = Inl (TypeError ''comparison not supported between these instances'')"

section \<open>String operations\<close>

definition whitespace :: "char list" where
  "whitespace = [CHR 0x09, CHR 0x0A, CHR 0x0B, CHR 0x0C, CHR 0x0D,
                 CHR 0x1C, CHR 0x1D, CHR 0x1E, CHR 0x1F, CHR 0x20]"

definition digit_chars :: "char list" where
  "digit_chars = ''0123456789''"

definition upper_chars :: "char list" where
  "upper_chars = ''ABCDEFGHIJKLMNOPQRSTUVWXYZ''"

definition word_chars :: "char list" where
  "word_chars = ''abcdefghijklmnopqrstuvwxyz'' @ upper_chars @ digit_chars @ ''_''"

definition is_space :: "char \<Rightarrow> bool" where
  "is_space c = (c \<in> set whitespace)"

definition lower_char :: "char \<Rightarrow> char" where
  "lower_char c = (if c \<in> set upper_chars then char_of (of_char c + (32::nat)) else c)"

definition lower :: "string \<Rightarrow> string" where
  "lower s = map lower_char s"

definition strip :: "string \<Rightarrow> string" where
  "strip s = rev (dropWhile is_space (rev (dropWhile is_space s)))"

fun startswith :: "string \<Rightarrow> string \<Rightarrow> bool" where
  "startswith s [] = True"
| "startswith [] (p # ps) = False"
| "startswith (c # cs) (p # ps) = (c = p \<and> startswith cs ps)"

text \<open>\<^verbatim>\<open>sub in s\<close>.\<close>

fun contains :: "string \<Rightarrow> string \<Rightarrow> bool" where
  "contains sub [] = (sub = [])"
| "contains sub (c # cs) = (startswith (c # cs) sub \<or> contains sub cs)"

text \<open>
  \<^verbatim>\<open>s.replace(old, new)\<close> and \<^verbatim>\<open>s.split(sep)\<close> for a non-empty \<open>old\<close> and \<open>sep\<close> (the
  source passes literals only): occurrences are taken from the left and do not overlap.
\<close>

function replace :: "string \<Rightarrow> string \<Rightarrow> string \<Rightarrow> string" where
  "replace old new [] = []"
| "replace old new (c # cs) =
     (if old \<noteq> [] \<and> startswith (c # cs) old
      then new @ replace old new (drop (length old) (c # cs))
      else c # replace old new cs)"
  by pat_completeness auto
termination
  by (relation "measure (\<lambda>(old, new, s). length s)") (auto simp: neq_Nil_conv)

function split_acc :: "string \<Rightarrow> string \<Rightarrow> string \<Rightarrow> string list" where
  "split_acc sep cur [] = [cur]"
| "split_acc sep cur (c # cs) =
     (if sep \<noteq> [] \<and> startswith (c # cs) sep
      then cur # split_acc sep [] (drop (length sep) (c # cs))
      else split_acc sep (cur @ [c]) cs)"
  by pat_completeness auto
termination
  by (relation "measure (\<lambda>(sep, cur, s). length s)") (auto simp: neq_Nil_conv)

definition split :: "string \<Rightarrow> string \<Rightarrow> string list" where
  "split sep s = split_acc sep [] s"

text \<open>\<^verbatim>\<open>s.split()\<close>: the maximal runs of non-whitespace characters.\<close>

fun split_ws_acc :: "string \<Rightarrow> string \<Rightarrow> string list" where
  "split_ws_acc cur [] = (if cur = [] then [] else [cur])"
| "split_ws_acc cur (c # cs) =
     (if is_space c then (if cur = [] then [] else [cur]) @ split_ws_acc [] cs
      else split_ws_acc (cur @ [c]) cs)"

definition split_ws :: "string \<Rightarrow> string list" where
  "split_ws s = split_ws_acc [] s"

text \<open>\<^verbatim>\<open>obj.strip()\<close> on an object that may be something else than a \<^verbatim>\<open>str\<close>.\<close>

fun py_strip :: "pyobj \<Rightarrow> py_exn + string" where
  "py_strip (PyStr s) = Inr (strip s)"
| "py_strip obj = Inl (AttributeError ''object has no attribute strip'')"

text \<open>
  \<^verbatim>\<open>float(s)\<close> on an unsigned decimal literal (digits, at most one point, at least one
  digit), which is all the patterns below capture; any other string is a \<^verbatim>\<open>ValueError\<close>
  here. The result is the exact value of the literal. Python rounds it to the nearest
  double, which is monotone and leaves 0, 0.75 and 1 as they are: on the literals the
  patterns capture, the comparisons of the source with these bounds agree with the exact
  ones, except that a literal just below 0.75 may round up to 0.75 itself.
\<close>

definition digit_val :: "char \<Rightarrow> nat" where
  "digit_val c = of_char c - 48"

definition nat_of_digits :: "string \<Rightarrow> nat" where
  "nat_of_digits s = foldl (\<lambda>n c. 10 * n + digit_val c) 0 s"

definition py_float :: "string \<Rightarrow> py_exn + rat" where
  "py_float s =
     (let ip = takeWhile (\<lambda>c. c \<in> set digit_chars) s;
          r = dropWhile (\<lambda>c. c \<in> set digit_chars) s
      in case r of
           [] \<Rightarrow> if ip = [] then Inl (ValueError ''could not convert string to float'')
                 else Inr (of_nat (nat_of_digits ip))
         | c # fp \<Rightarrow>
             if c = CHR ''.'' \<and> (\<forall>d \<in> set fp. d \<in> set digit_chars) \<and> (ip \<noteq> [] \<or> fp \<noteq> [])
             then Inr (of_nat (nat_of_digits ip) + of_nat (nat_of_digits fp) / 10 ^ length fp)
             else Inl (ValueError ''could not convert string to float''))"

section \<open>Regular expressions\<close>

text \<open>
  The fragment of Python's \<^verbatim>\<open>re\<close> the source's patterns use, with its backtracking
  semantics: \<open>rmatch\<close> lists the ways a pattern matches at a position in the order the
  backtracking matcher tries them (greedy repetition takes the longest first, an
  alternation its left branch first), so the head of the list is the match \<^verbatim>\<open>re\<close> finds.
  The state holds the character before the position (for \<^verbatim>\<open>\b\<close>), the text that is left
  and what group 1 captured; every pattern of the source has at most one group.
\<close>

datatype regex =
    Eps
  | Lit char
  | CSet bool "char list"
  | Cat regex regex
  | Alt regex regex
  | Star regex
  | Group regex
  | WordB
  | Eos

record mstate =
  prev :: "char option"
  rest :: string
  grp :: "string option"

definition is_word :: "char option \<Rightarrow> bool" where
  "is_word co = (case co of None \<Rightarrow> False | Some c \<Rightarrow> c \<in> set word_chars)"

text \<open>
  \<open>CSet neg cs\<close> is the class \<^verbatim>\<open>[cs]\<close>, or \<^verbatim>\<open>[^cs]\<close> when \<open>neg\<close>; \<open>WordB\<close> is \<^verbatim>\<open>\b\<close> and \<open>Eos\<close>
  is \<^verbatim>\<open>$\<close> (the end, or before a last newline). The first argument is \<^verbatim>\<open>re.IGNORECASE\<close>.
\<close>

function rmatch :: "bool \<Rightarrow> regex \<Rightarrow> mstate \<Rightarrow> mstate list" where
  "rmatch ic Eps st = [st]"
| "rmatch ic (Lit a) st =
     (case rest st of
        [] \<Rightarrow> []
      | c # cs \<Rightarrow> if (if ic then lower_char c = lower_char a else c = a)
                 then [st\<lparr>prev := Some c, rest := cs\<rparr>] else [])"
| "rmatch ic (CSet neg members) st =
     (case rest st of
        [] \<Rightarrow> []
      | c # cs \<Rightarrow> if (if ic then lower_char c \<in> set (map lower_char members)
                      else c \<in> set members) \<noteq> neg
                 then [st\<lparr>prev := Some c, rest := cs\<rparr>] else [])"
| "rmatch ic (Cat r1 r2) st = concat (map (rmatch ic r2) (rmatch ic r1 st))"
| "rmatch ic (Alt r1 r2) st = rmatch ic r1 st @ rmatch ic r2 st"
| "rmatch ic (Star r) st =
     concat (map (\<lambda>st'. if length (rest st') < length (rest st)
                         then rmatch ic (Star r) st' else [])
                 (rmatch ic r st)) @ [st]"
| "rmatch ic (Group r) st =
     map (\<lambda>st'. st'\<lparr>grp := Some (take (length (rest st) - length (rest st')) (rest st))\<rparr>)
         (rmatch ic r st)"
| "rmatch ic WordB st =
     (if is_word (prev st) \<noteq> is_word (case rest st of [] \<Rightarrow> None | c # cs \<Rightarrow> Some c)
      then [st] else [])"
| "rmatch ic Eos st = (if rest st = [] \<or> rest st = [CHR 0x0A] then [st] else [])"
  by pat_completeness auto
termination
  by (relation "measures [\<lambda>(ic, r, st). size r, \<lambda>(ic, r, st). length (rest st)]") auto

definition lits :: "string \<Rightarrow> regex" where
  "lits s = foldr (\<lambda>c r. Cat (Lit c) r) s Eps"

definition seq :: "regex list \<Rightarrow> regex" where
  "seq rs = foldr Cat rs Eps"

definition Plus :: "regex \<Rightarrow> regex" where
  "Plus r = Cat r (Star r)"

definition Opt :: "regex \<Rightarrow> regex" where
  "Opt r = Alt r Eps"

fun has_group :: "regex \<Rightarrow> bool" where
  "has_group (Group r) = True"
| "has_group (Cat r1 r2) = (has_group r1 \<or> has_group r2)"
| "has_group (Alt r1 r2) = (has_group r1 \<or> has_group r2)"
| "has_group (Star r) = has_group r"
| "has_group r = False"

text \<open>
  A match object: \<^verbatim>\<open>group()\<close>, \<^verbatim>\<open>group(1)\<close>, and where the match ended (the character
  before it and the text after it).
\<close>

record rematch =
  group0 :: string
  group1 :: "string option"
  after_prev :: "char option"
  after_rest :: string

definition match_at :: "bool \<Rightarrow> regex \<Rightarrow> char option \<Rightarrow> string \<Rightarrow> rematch option" where
  "match_at ic r p s =
     (case rmatch ic r \<lparr>prev = p, rest = s, grp = None\<rparr> of
        [] \<Rightarrow> None
      | st # sts \<Rightarrow> Some \<lparr>group0 = take (length s - length (rest st)) s, group1 = grp st,
                         after_prev = prev st, after_rest = rest st\<rparr>)"

text \<open>\<^verbatim>\<open>re.search\<close>: the match at the leftmost position that has one.\<close>

fun search_from :: "bool \<Rightarrow> regex \<Rightarrow> char option \<Rightarrow> string \<Rightarrow> rematch option" where
  "search_from ic r p [] = match_at ic r p []"
| "search_from ic r p (c # cs) =
     (case match_at ic r p (c # cs) of
        Some m \<Rightarrow> Some m
      | None \<Rightarrow> search_from ic r (Some c) cs)"

definition re_search :: "bool \<Rightarrow> regex \<Rightarrow> string \<Rightarrow> rematch option" where
  "re_search ic r s = search_from ic r None s"

text \<open>
  \<^verbatim>\<open>re.findall\<close> for a pattern with one group: group 1 of the successive matches, each
  search starting where the last match ended (one character on after an empty match).
\<close>

function findall_from :: "bool \<Rightarrow> regex \<Rightarrow> char option \<Rightarrow> string \<Rightarrow> string list" where
  "findall_from ic r p s =
     (case match_at ic r p s of
        None \<Rightarrow> (case s of [] \<Rightarrow> [] | c # cs \<Rightarrow> findall_from ic r (Some c) cs)
      | Some m \<Rightarrow>
          (case group1 m of None \<Rightarrow> [] | Some g \<Rightarrow> g) #
          (if length (after_rest m) < length s
           then findall_from ic r (after_prev m) (after_rest m)
           else (case s of [] \<Rightarrow> [] | c # cs \<Rightarrow> findall_from ic r (Some c) cs)))"
  by pat_completeness auto
termination
  by (relation "measure (\<lambda>(ic, r, p, s). length s)") auto

definition re_findall :: "bool \<Rightarrow> regex \<Rightarrow> string \<Rightarrow> string list" where
  "re_findall ic r s = findall_from ic r None s"

text \<open>
  \<^verbatim>\<open>re.sub(pattern, '', s)\<close>: the matches are cut out, the rest is kept. (With an empty
  replacement it does not matter how empty matches are counted.)
\<close>

function delete_from :: "bool \<Rightarrow> regex \<Rightarrow> char option \<Rightarrow> string \<Rightarrow> string" where
  "delete_from ic r p s =
     (case match_at ic r p s of
        None \<Rightarrow> (case s of [] \<Rightarrow> [] | c # cs \<Rightarrow> c # delete_from ic r (Some c) cs)
      | Some m \<Rightarrow>
          (if length (after_rest m) < length s
           then delete_from ic r (after_prev m) (after_rest m)
           else (case s of [] \<Rightarrow> [] | c # cs \<Rightarrow> c # delete_from ic r (Some c) cs)))"
  by pat_completeness auto
termination
  by (relation "measure (\<lambda>(ic, r, p, s). length s)") auto

definition re_sub_empty :: "bool \<Rightarrow> regex \<Rightarrow> string \<Rightarrow> string" where
  "re_sub_empty ic r s = delete_from ic r None s"

section \<open>The pipeline state\<close>

text \<open>
  \<^verbatim>\<open>State\<close> of \<^verbatim>\<open>decision.py\<close> has the single key \<^verbatim>\<open>messages\<close>. A message has its
  \<^verbatim>\<open>type\<close> (\<^verbatim>\<open>"human"\<close> for a HumanMessage, \<^verbatim>\<open>"ai"\<close> for an AIMessage) and its content.
\<close>

record message =
  mtype :: string
  content :: pyobj

type_synonym state = "message list"

definition HumanMessage :: "pyobj \<Rightarrow> message" where
  "HumanMessage c = \<lparr>mtype = ''human'', content = c\<rparr>"

definition AIMessage :: "pyobj \<Rightarrow> message" where
  "AIMessage c = \<lparr>mtype = ''ai'', content = c\<rparr>"

text \<open>\<^verbatim>\<open>state["messages"][-1].content\<close>.\<close>

definition last_content :: "state \<Rightarrow> py_exn + pyobj" where
  "last_content messages =
     (if messages = [] then Inl (IndexError ''list index out of range'')
      else Inr (content (last messages)))"

section \<open>The router: \<^verbatim>\<open>route_after_reflection\<close>\<close>

text \<open>
  \<^verbatim>\<open>json.loads\<close> is the standard library's; the router and the reflection node take it
  as the parameter \<open>json_loads\<close>, so every theorem holds whatever it answers.
\<close>

type_synonym loads = "string \<Rightarrow> py_exn + json"

definition backticks :: string where
  "backticks = [CHR 0x60, CHR 0x60, CHR 0x60]"

text \<open>Lines 266 to 276: the text after the last \<^verbatim>\<open></think>\<close>, without the markdown fence.\<close>

definition clean_message :: "pyobj \<Rightarrow> py_exn + string" where
  "clean_message last_message =
     try_bind (py_strip last_message) (\<lambda>cleaned_message.
       let cleaned_message =
             (if contains ''<think>'' cleaned_message \<and> contains ''</think>'' cleaned_message
              then (let parts = split ''</think>'' cleaned_message
                    in if length parts > 1 then strip (last parts) else cleaned_message)
              else cleaned_message)
       in Inr (strip (replace backticks [] (replace (backticks @ ''json'') [] cleaned_message))))"

text \<open>\<^verbatim>\<open>r'\{[^{}]*"confidence_score"[^{}]*"message"[^{}]*\}'\<close>\<close>

definition json_pattern :: regex where
  \<open>json_pattern =
     seq [Lit CHR ''{'', Star (CSet True ''{}''), lits ''"confidence_score"'',
          Star (CSet True ''{}''), lits ''"message"'', Star (CSet True ''{}''), Lit CHR ''}'']\<close>

text \<open>\<^verbatim>\<open>r'"confidence_score":\s*([0-9]*\.?[0-9]+)'\<close>\<close>

definition score_pattern :: regex where
  \<open>score_pattern =
     seq [lits ''"confidence_score":'', Star (CSet False whitespace),
          Group (seq [Star (CSet False digit_chars), Opt (Lit CHR ''.''),
                      Plus (CSet False digit_chars)])]\<close>

text \<open>\<^verbatim>\<open>r'"message":\s*"([^"]*)"'\<close>\<close>

definition msg_pattern :: regex where
  \<open>msg_pattern =
     seq [lits ''"message":'', Star (CSet False whitespace), Lit (CHR 0x22),
          Group (Star (CSet True [CHR 0x22])), Lit (CHR 0x22)]\<close>

text \<open>\<^verbatim>\<open>r'\b(0\.[0-9]+|1\.0+|0)\b'\<close>\<close>

definition number_pattern :: regex where
  "number_pattern =
     seq [WordB,
          Group (Alt (seq [Lit CHR ''0'', Lit CHR ''.'', Plus (CSet False digit_chars)])
                (Alt (seq [Lit CHR ''1'', Lit CHR ''.'', Plus (Lit CHR ''0'')])
                     (Lit CHR ''0''))),
          WordB]"

text \<open>
  The two local variables of the extraction, \<^verbatim>\<open>confidence_score\<close> (\<open>JNull\<close> is \<^verbatim>\<open>None\<close>)
  and \<^verbatim>\<open>message_text\<close>, as lines 279 and 280 initialise them.
\<close>

record extraction =
  confidence_score :: json
  message_text :: json

definition extraction_init :: extraction where
  "extraction_init = \<lparr>confidence_score = JNull, message_text = JStr []\<rparr>"

text \<open>Approach 1, lines 282 to 294: a complete JSON object, parsed by \<^verbatim>\<open>json.loads\<close>.\<close>

definition approach1 :: "loads \<Rightarrow> string \<Rightarrow> extraction \<Rightarrow> py_exn + extraction" where
  "approach1 json_loads cleaned_message st =
     (case re_search False json_pattern cleaned_message of
        None \<Rightarrow> Inr st
      | Some json_match \<Rightarrow>
          (case json_loads (group0 json_match) of
             Inl e \<Rightarrow> if is_JSONDecodeError e then Inr st else Inl e
           | Inr reflection_result \<Rightarrow>
               try_bind (json_get reflection_result ''confidence_score'' JNull) (\<lambda>cs.
               try_bind (json_get reflection_result ''message'' (JStr [])) (\<lambda>mt.
                 Inr (st\<lparr>confidence_score := cs, message_text := mt\<rparr>)))))"

text \<open>Approach 2, lines 296 to 307: the value after the key, read by \<^verbatim>\<open>float\<close>.\<close>

definition approach2 :: "string \<Rightarrow> extraction \<Rightarrow> py_exn + extraction" where
  "approach2 cleaned_message st =
     (if confidence_score st = JNull then
        (case re_search False score_pattern cleaned_message of
           None \<Rightarrow> Inr st
         | Some score_match \<Rightarrow>
             try_bind (py_float (case group1 score_match of None \<Rightarrow> [] | Some g \<Rightarrow> g)) (\<lambda>f.
               let st = st\<lparr>confidence_score := JNum f\<rparr>
               in case re_search False msg_pattern cleaned_message of
                    None \<Rightarrow> Inr st
                  | Some msg_match \<Rightarrow>
                      Inr (st\<lparr>message_text :=
                                 JStr (case group1 msg_match of None \<Rightarrow> [] | Some g \<Rightarrow> g)\<rparr>)))
      else Inr st)"

text \<open>Approach 3, lines 309 to 320: the first bare decimal between 0 and 1.\<close>

fun first_reasonable :: "string list \<Rightarrow> extraction \<Rightarrow> py_exn + extraction" where
  "first_reasonable [] st = Inr st"
| "first_reasonable (num_str # numbers) st =
     try_bind (py_float num_str) (\<lambda>num.
       if 0 \<le> num \<and> num \<le> 1 then Inr (st\<lparr>confidence_score := JNum num\<rparr>)
       else first_reasonable numbers st)"

definition approach3 :: "string \<Rightarrow> extraction \<Rightarrow> py_exn + extraction" where
  "approach3 cleaned_message st =
     (if confidence_score st = JNull then
        (let numbers = re_findall False number_pattern cleaned_message
         in if numbers \<noteq> [] then first_reasonable numbers st else Inr st)
      else Inr st)"

text \<open>Lines 278 to 320: the three approaches, one after the other, on the same variables.\<close>

definition extract_confidence :: "loads \<Rightarrow> string \<Rightarrow> py_exn + extraction" where
  "extract_confidence json_loads cleaned_message =
     try_bind (approach1 json_loads cleaned_message extraction_init) (\<lambda>st.
     try_bind (approach2 cleaned_message st) (\<lambda>st.
       approach3 cleaned_message st))"

text \<open>Lines 322 to 338: the threshold.\<close>

definition decide :: "extraction \<Rightarrow> py_exn + string" where
  "decide st =
     (if confidence_score st \<noteq> JNull then
        try_bind (py_less (confidence_score st) (75 / 100)) (\<lambda>requires_human_review.
          if requires_human_review then Inr ''human_approval''
          else Inr ''automatic_approval'')
      else Inr ''human_approval'')"

text \<open>The body of the \<^verbatim>\<open>try\<close>, lines 265 to 338.\<close>

definition route_try :: "loads \<Rightarrow> pyobj \<Rightarrow> py_exn + string" where
  "route_try json_loads last_message =
     try_bind (clean_message last_message) (\<lambda>cleaned_message.
     try_bind (extract_confidence json_loads cleaned_message) decide)"

text \<open>
  The function: line 258 reads the last message before the \<^verbatim>\<open>try\<close>, so its exception is
  the function's; every exception of the body ends in \<^verbatim>\<open>"human_approval"\<close> (line 343).
\<close>

definition route_after_reflection :: "loads \<Rightarrow> state \<Rightarrow> py_exn + string" where
  "route_after_reflection json_loads messages =
     try_bind (last_content messages) (\<lambda>last_message.
       case route_try json_loads last_message of
         Inl e \<Rightarrow> Inr ''human_approval''
       | Inr label \<Rightarrow> Inr label)"

text \<open>
  The same extraction as the specification words it: each approach on its own, the first
  one that yields a score decides.
\<close>

definition json_object_score :: "loads \<Rightarrow> string \<Rightarrow> py_exn + json" where
  "json_object_score json_loads cleaned_message =
     try_bind (approach1 json_loads cleaned_message extraction_init) (\<lambda>st. Inr (confidence_score st))"

definition key_value_score :: "string \<Rightarrow> py_exn + json" where
  "key_value_score cleaned_message =
     try_bind (approach2 cleaned_message extraction_init) (\<lambda>st. Inr (confidence_score st))"

definition bare_decimal_score :: "string \<Rightarrow> py_exn + json" where
  "bare_decimal_score cleaned_message =
     try_bind (approach3 cleaned_message extraction_init) (\<lambda>st. Inr (confidence_score st))"

definition first_score :: "loads \<Rightarrow> string \<Rightarrow> py_exn + json" where
  "first_score json_loads cleaned_message =
     try_bind (json_object_score json_loads cleaned_message) (\<lambda>s1.
       if s1 \<noteq> JNull then Inr s1
       else try_bind (key_value_score cleaned_message) (\<lambda>s2.
         if s2 \<noteq> JNull then Inr s2
         else bare_decimal_score cleaned_message))"


text \<open>
  What \<^verbatim>\<open>json.loads\<close> answers on the texts of the examples below: the two well-formed
  objects are parsed, anything else is not JSON.
\<close>

definition sample_loads :: loads where
  \<open>sample_loads s =
     (if s = ''{"confidence_score": 0.82, "message": "verified"}''
      then Inr (JObj [(''confidence_score'', JNum (82 / 100)), (''message'', JStr ''verified'')])
      else if s = ''{"confidence_score": 7, "message": "certain"}''
      then Inr (JObj [(''confidence_score'', JNum 7), (''message'', JStr ''certain'')])
      else Inl (JSONDecodeError ''Expecting value''))\<close>


section \<open>The reflection node: \<^verbatim>\<open>reflection_node\<close>\<close>

text \<open>
  The hosted model is outside the program: \<open>llm n prompt\<close> is what the \<open>n\<close>-th call of
  \<^verbatim>\<open>reflect_on_report.ainvoke\<close> does on the prompt messages, either raising or returning
  the content of its answer.
\<close>

type_synonym llm = "nat \<Rightarrow> message list \<Rightarrow> py_exn + pyobj"

definition max_attempts :: nat where
  "max_attempts = 3"

definition explicit_instruction :: string where
  \<open>explicit_instruction =
     ''Please respond with ONLY a JSON object in this exact format: '' @
     ''{"confidence_score": 0.XX, "message": "your explanation"}. No other text.''\<close>

definition fallback_response :: string where
  \<open>fallback_response =
     ''{"confidence_score": 0.5, "message": "Unable to complete automated assessment '' @
     ''due to processing error. Manual review recommended."}''\<close>

text \<open>Lines 181 to 187: the roles are swapped from the second message on.\<close>

definition cls_map :: "string \<Rightarrow> py_exn + (pyobj \<Rightarrow> message)" where
  "cls_map k =
     (if k = ''ai'' then Inr HumanMessage
      else if k = ''human'' then Inr AIMessage
      else Inl (KeyError k))"

fun translate_rest :: "message list \<Rightarrow> py_exn + message list" where
  "translate_rest [] = Inr []"
| "translate_rest (msg # msgs) =
     try_bind (cls_map (mtype msg)) (\<lambda>cls.
     try_bind (translate_rest msgs) (\<lambda>r. Inr (cls (content msg) # r)))"

definition translate :: "state \<Rightarrow> py_exn + message list" where
  "translate messages =
     (case messages of
        [] \<Rightarrow> Inl (IndexError ''list index out of range'')
      | m # ms \<Rightarrow> try_bind (translate_rest ms) (\<lambda>r. Inr (m # r)))"

text \<open>
  One pass of the loop body. The body of the \<^verbatim>\<open>try\<close> (lines 193 to 220) returns from the
  function, or runs to its end, or raises; \<^verbatim>\<open>response_content\<close> is bound from line 196 on,
  and \<^verbatim>\<open>translated\<close> grows on line 220 only.
\<close>

datatype step_outcome =
    Return "message list"
  | Continue "message list" "string option"

datatype try_outcome =
    Raised py_exn "string option"
  | Done step_outcome

definition valid_json_found :: "loads \<Rightarrow> string \<Rightarrow> py_exn + bool" where
  \<open>valid_json_found json_loads response_content =
     (if contains ''"confidence_score"'' response_content \<and> contains ''"message"'' response_content
      then (case re_search False json_pattern response_content of
              None \<Rightarrow> Inr False
            | Some json_match \<Rightarrow>
                (case json_loads (group0 json_match) of
                   Inr v \<Rightarrow> Inr True
                 | Inl e \<Rightarrow> if is_JSONDecodeError e then Inr False else Inl e))
      else Inr False)\<close>

definition reflection_try ::
  "loads \<Rightarrow> llm \<Rightarrow> nat \<Rightarrow> message list \<Rightarrow> string option \<Rightarrow> try_outcome" where
  "reflection_try json_loads llm attempt translated response_content =
     (case llm attempt translated of
        Inl e \<Rightarrow> Raised e response_content
      | Inr res_content \<Rightarrow>
          (case py_strip res_content of
             Inl e \<Rightarrow> Raised e response_content
           | Inr response_content \<Rightarrow>
               (case valid_json_found json_loads response_content of
                  Inl e \<Rightarrow> Raised e (Some response_content)
                | Inr found \<Rightarrow>
                    if found then Done (Return [HumanMessage (PyStr response_content)])
                    else Done (Continue
                           (if attempt < max_attempts - 1
                            then translated @ [HumanMessage (PyStr explicit_instruction)]
                            else translated)
                           (Some response_content)))))"

text \<open>With the handler of lines 222 to 227: only the last attempt answers the fallback.\<close>

definition reflection_attempt ::
  "loads \<Rightarrow> llm \<Rightarrow> nat \<Rightarrow> message list \<Rightarrow> string option \<Rightarrow> step_outcome" where
  "reflection_attempt json_loads llm attempt translated response_content =
     (case reflection_try json_loads llm attempt translated response_content of
        Raised e rc \<Rightarrow>
          if attempt = max_attempts - 1
          then Return [HumanMessage (PyStr fallback_response)]
          else Continue translated rc
      | Done out \<Rightarrow> out)"

text \<open>
  The loop \<^verbatim>\<open>for attempt in range(max_attempts)\<close> and line 230 after it, which reads
  \<^verbatim>\<open>response_content\<close> and raises if it was never bound. The result comes with the number
  of calls of the model.
\<close>

function reflection_loop ::
  "loads \<Rightarrow> llm \<Rightarrow> nat \<Rightarrow> message list \<Rightarrow> string option \<Rightarrow> (py_exn + message list) \<times> nat"
  where
  "reflection_loop json_loads llm attempt translated response_content =
     (if attempt < max_attempts then
        (case reflection_attempt json_loads llm attempt translated response_content of
           Return out \<Rightarrow> (Inr out, Suc attempt)
         | Continue translated' response_content' \<Rightarrow>
             reflection_loop json_loads llm (Suc attempt) translated' response_content')
      else
        (case response_content of
           None \<Rightarrow> (Inl (UnboundLocalError ''response_content''), attempt)
         | Some rc \<Rightarrow> (Inr [HumanMessage (PyStr rc)], attempt)))"
  by pat_completeness auto
termination
  by (relation "measure (\<lambda>(json_loads, llm, attempt, translated, rc). max_attempts - attempt)") auto

definition reflection_node :: "loads \<Rightarrow> llm \<Rightarrow> state \<Rightarrow> (py_exn + message list) \<times> nat" where
  "reflection_node json_loads llm messages =
     (case translate messages of
        Inl e \<Rightarrow> (Inl e, 0)
      | Inr translated \<Rightarrow> reflection_loop json_loads llm 0 translated None)"

text \<open>Models for the examples: one that never answers, one that never answers JSON.\<close>

definition failing_llm :: llm where
  "failing_llm n prompt = Inl (OtherException ''Connection error.'')"

definition chatty_llm :: llm where
  "chatty_llm n prompt = Inr (PyStr ''I think it is fine'')"

text \<open>
  The reducer \<^verbatim>\<open>add_messages\<close> that \<^verbatim>\<open>State\<close> declares for its key: what a node returns is
  added at the end of the messages so far (the messages of this program carry no ids to
  replace an earlier one by). The router is called on the state so updated by
  \<^verbatim>\<open>reflect\<close>.
\<close>

definition add_messages :: "state \<Rightarrow> message list \<Rightarrow> state" where
  "add_messages left right = left @ right"

text \<open>A model for the examples that answers the JSON object asked for.\<close>

definition json_llm :: llm where
  \<open>json_llm n prompt = Inr (PyStr ''{"confidence_score": 0.82, "message": "verified"}'')\<close>


section \<open>The external verification service: \<^verbatim>\<open>exteral_service.py\<close>\<close>

text \<open>
  The table \<^verbatim>\<open>known_hospitals\<close> maps a lower-case name to a dict with four keys that every
  entry has and seven that only some have (read with \<^verbatim>\<open>.get(key, default)\<close>); the dict
  keeps its insertion order.
\<close>

record hospital =
  official_name :: string
  location :: string
  facility_type :: string
  status :: string
  established :: "string option"
  verification_sources :: "string list option"
  coordinates :: "(rat \<times> rat) option"
  postal_code :: "string option"
  phone :: "string option"
  website :: "string option"
  services :: "string list option"

definition known_hospitals :: "(string \<times> hospital) list" where
  "known_hospitals =
     [(''armidale and new england hospital'',
       \<lparr>official_name = ''Armidale and New England Hospital'',
        location = ''Armidale, New South Wales, Australia'',
        facility_type = ''Public Hospital'',
        status = ''Active'',
        established = Some ''1950s'',
        verification_sources = Some [''NSW Health Directory'',
                                     ''Australian Hospital Association'',
                                     ''Google Maps verification''],
        coordinates = Some (- (305136 / 10000), 1516669 / 10000),
        postal_code = Some ''2350'',
        phone = Some ''+61 2 6776 8888'',
        website = Some ''https://www.health.nsw.gov.au/'',
        services = Some [''Emergency'', ''Maternity'', ''General Medicine'', ''Surgery'']\<rparr>),
      (''royal north shore hospital'',
       \<lparr>official_name = ''Royal North Shore Hospital'',
        location = ''St Leonards, New South Wales, Australia'',
        facility_type = ''Public Hospital'',
        status = ''Active'',
        established = None, verification_sources = None, coordinates = None,
        postal_code = None, phone = None, website = None, services = None\<rparr>),
      (''westmead hospital'',
       \<lparr>official_name = ''Westmead Hospital'',
        location = ''Westmead, New South Wales, Australia'',
        facility_type = ''Public Hospital'',
        status = ''Active'',
        established = None, verification_sources = None, coordinates = None,
        postal_code = None, phone = None, website = None, services = None\<rparr>)]"

definition get_or :: "'a option \<Rightarrow> 'a \<Rightarrow> 'a" where
  "get_or v d = (case v of None \<Rightarrow> d | Some x \<Rightarrow> x)"

text \<open>Lines 77 to 89: lower case, stripped, the location suffixes cut out.\<close>

definition normalize_place :: "string \<Rightarrow> string" where
  "normalize_place place_name =
     (let normalized_place = strip (lower place_name);
          normalized_place =
            (if contains '', armidale'' normalized_place
             then replace '', armidale'' [] normalized_place else normalized_place);
          normalized_place =
            (if contains '', new south wales'' normalized_place
             then replace '', new south wales'' [] normalized_place else normalized_place);
          normalized_place =
            (if contains '', nsw'' normalized_place
             then replace '', nsw'' [] normalized_place else normalized_place);
          normalized_place =
            (if contains '', australia'' normalized_place
             then replace '', australia'' [] normalized_place else normalized_place)
      in normalized_place)"

text \<open>The dict under \<^verbatim>\<open>"verification_result"\<close> of a verified place (lines 97 to 111, 131 to 145).\<close>

definition verification_result :: "string \<Rightarrow> hospital \<Rightarrow> json" where
  "verification_result place_name hospital_info =
     JObj [(''input_place'', JStr place_name),
           (''verified_name'', JStr (official_name hospital_info)),
           (''location'', JStr (location hospital_info)),
           (''type'', JStr (facility_type hospital_info)),
           (''status'', JStr (status hospital_info)),
           (''established'', JStr (get_or (established hospital_info) ''Unknown'')),
           (''coordinates'',
              (case coordinates hospital_info of
                 None \<Rightarrow> JObj []
               | Some (la, lo) \<Rightarrow> JObj [(''latitude'', JNum la), (''longitude'', JNum lo)])),
           (''contact_info'',
              JObj [(''phone'', JStr (get_or (phone hospital_info) ''Not available'')),
                    (''website'', JStr (get_or (website hospital_info) ''Not available''))]),
           (''services'', JArr (map JStr (get_or (services hospital_info) []))),
           (''verification_sources'',
              JArr (map JStr (get_or (verification_sources hospital_info) [])))]"

definition verification_notes :: "hospital \<Rightarrow> json list" where
  "verification_notes hospital_info =
     [JStr (''Hospital '' @ [CHR 0x27] @ official_name hospital_info @ [CHR 0x27]
            @ '' is a verified medical facility''),
      JStr (''Located in '' @ location hospital_info),
      JStr ''Facility is currently active and operational'',
      JStr ''Information cross-referenced with official health directories'']"

text \<open>Line 157: a word of one name occurs in the other.\<close>

definition weak_match :: "string \<Rightarrow> string \<Rightarrow> bool" where
  "weak_match key normalized_place =
     (list_ex (\<lambda>word. contains word normalized_place) (split_ws key)
      \<or> list_ex (\<lambda>word. contains word key) (split_ws normalized_place))"

text \<open>
  Lines 41 to 181 for a \<^verbatim>\<open>str\<close> argument: nothing in them raises. The second loop only
  collects the weak matches for the report.
\<close>

definition verify_str :: "string \<Rightarrow> pydict" where
  "verify_str place_name =
     (let normalized_place = normalize_place place_name
      in case map_of known_hospitals normalized_place of
           Some hospital_info \<Rightarrow>
             [(''place_verified'', JBool True),
              (''confidence_score'', JNum (95 / 100)),
              (''verification_result'', verification_result place_name hospital_info),
              (''verification_notes'', JArr (verification_notes hospital_info))]
         | None \<Rightarrow>
             (case find (\<lambda>(key, hospital). contains key normalized_place
                                          \<or> contains normalized_place key) known_hospitals of
                Some (key, hospital) \<Rightarrow>
                  [(''place_verified'', JBool True),
                   (''confidence_score'', JNum (90 / 100)),
                   (''verification_result'', verification_result place_name hospital),
                   (''verification_notes'',
                      JArr (verification_notes hospital @
                        [JStr (''Matched via partial name matching '' @
                               ''(input contained location suffix)'')]))]
              | None \<Rightarrow>
                  (let partial_matches =
                         map (\<lambda>(key, hospital).
                                JObj [(''name'', JStr (official_name hospital)),
                                      (''location'', JStr (location hospital))])
                             (filter (\<lambda>(key, hospital). weak_match key normalized_place)
                                     known_hospitals)
                   in [(''place_verified'', JBool False),
                       (''confidence_score'', JNum (2 / 10)),
                       (''verification_result'',
                          JObj [(''input_place'', JStr place_name),
                                (''status'', JStr ''Not found in verified database''),
                                (''partial_matches'', JArr partial_matches)]),
                       (''verification_notes'',
                          JArr [JStr (''Place '' @ [CHR 0x27] @ place_name @ [CHR 0x27]
                                      @ '' not found in verified hospital database''),
                                JStr (''This could indicate a non-existent location '' @
                                      ''or outdated information''),
                                JStr ''Manual verification recommended for unknown locations'']),
                       (''risk_factors'',
                          JArr [JStr ''Unverified birth location'',
                                JStr (''Potential fraudulent document if location doesn'' @
                                      [CHR 0x27] @ ''t exist''),
                                JStr (''Requires additional verification through '' @
                                      ''official channels'')])])))"

text \<open>
  The body of the \<^verbatim>\<open>try\<close> for any argument: \<^verbatim>\<open>place_name.lower()\<close> on line 78 raises
  when the argument is not a \<^verbatim>\<open>str\<close>.
\<close>

fun verify_try :: "pyobj \<Rightarrow> py_exn + pydict" where
  "verify_try (PyStr place_name) = Inr (verify_str place_name)"
| "verify_try obj = Inl (AttributeError ''object has no attribute lower'')"

text \<open>The function: the handler of lines 183 to 190 turns every exception into a dict.\<close>

definition verify_place_of_birth :: "pyobj \<Rightarrow> pydict" where
  "verify_place_of_birth place_name =
     (case verify_try place_name of
        Inr result \<Rightarrow> result
      | Inl e \<Rightarrow>
          [(''place_verified'', JBool False),
           (''confidence_score'', JNum 0),
           (''error'', JStr (str_exn e)),
           (''verification_notes'', JArr [JStr ''Verification service temporarily unavailable''])])"


section \<open>The external service call: \<^verbatim>\<open>call_external_service\<close>\<close>

text \<open>\<^verbatim>\<open>r'"place_of_birth":\s*"([^"]+)"'\<close>\<close>

definition place_pattern :: regex where
  \<open>place_pattern =
     seq [lits ''"place_of_birth":'', Star (CSet False whitespace), Lit (CHR 0x22),
          Group (Plus (CSet True [CHR 0x22])), Lit (CHR 0x22)]\<close>

text \<open>
  The list \<^verbatim>\<open>hospital_patterns\<close> (lines 231 to 237), matched with \<^verbatim>\<open>re.IGNORECASE\<close>:
  \<^verbatim>\<open>r'Armidale and New England Hospital[,\s]*Armidale'\<close>,
  \<^verbatim>\<open>r'New England Hospital[,\s]*Armidale'\<close>,
  \<^verbatim>\<open>r'place of birth[^:]*:\s*"?([^".\n]+(?:Hospital|Medical|Centre)[^".\n]*)"?'\<close>,
  \<^verbatim>\<open>r'stated as\s*"([^"]+Hospital[^"]*)"'\<close> and
  \<^verbatim>\<open>r'birth[^:]*:\s*"?([^".\n]*Hospital[^".\n]*)"?'\<close>.
\<close>

definition not_quote_dot_newline :: regex where
  "not_quote_dot_newline = CSet True [CHR 0x22, CHR ''.'', CHR 0x0A]"

definition hospital_patterns :: "regex list" where
  "hospital_patterns =
     [seq [lits ''Armidale and New England Hospital'',
           Star (CSet False (CHR '','' # whitespace)), lits ''Armidale''],
      seq [lits ''New England Hospital'',
           Star (CSet False (CHR '','' # whitespace)), lits ''Armidale''],
      seq [lits ''place of birth'', Star (CSet True '':''), Lit CHR '':'',
           Star (CSet False whitespace), Opt (Lit (CHR 0x22)),
           Group (seq [Plus not_quote_dot_newline,
                       Alt (lits ''Hospital'') (Alt (lits ''Medical'') (lits ''Centre'')),
                       Star not_quote_dot_newline]),
           Opt (Lit (CHR 0x22))],
      seq [lits ''stated as'', Star (CSet False whitespace), Lit (CHR 0x22),
           Group (seq [Plus (CSet True [CHR 0x22]), lits ''Hospital'',
                       Star (CSet True [CHR 0x22])]),
           Lit (CHR 0x22)],
      seq [lits ''birth'', Star (CSet True '':''), Lit CHR '':'',
           Star (CSet False whitespace), Opt (Lit (CHR 0x22)),
           Group (seq [Star not_quote_dot_newline, lits ''Hospital'',
                       Star not_quote_dot_newline]),
           Opt (Lit (CHR 0x22))]]"

text \<open>\<^verbatim>\<open>r'[,\s]*$'\<close>, cut off by \<^verbatim>\<open>re.sub\<close> on line 247.\<close>

definition trailing_pattern :: regex where
  "trailing_pattern = seq [Star (CSet False (CHR '','' # whitespace)), Eos]"

text \<open>
  The inner loop over the patterns (lines 239 to 249) on one content \<open>txt\<close>: a match sets
  \<^verbatim>\<open>place_of_birth\<close>, and the loop stops at the first one that leaves it non-empty.
\<close>

fun scan_patterns :: "regex list \<Rightarrow> string \<Rightarrow> string option \<Rightarrow> string option" where
  "scan_patterns [] txt place_of_birth = place_of_birth"
| "scan_patterns (pattern # patterns) txt place_of_birth =
     (case re_search True pattern txt of
        None \<Rightarrow> scan_patterns patterns txt place_of_birth
      | Some m \<Rightarrow>
          (let found = strip (if has_group pattern then get_or (group1 m) [] else group0 m);
               found = re_sub_empty False trailing_pattern found
           in if found \<noteq> [] then Some found
              else scan_patterns patterns txt (Some found)))"

text \<open>\<^verbatim>\<open>if place_of_birth:\<close> holds for a non-empty string.\<close>

definition truthy :: "string option \<Rightarrow> bool" where
  "truthy place_of_birth = (place_of_birth \<noteq> None \<and> place_of_birth \<noteq> Some [])"

text \<open>
  The outer loop over the messages (lines 214 to 252); every item is a message, so
  \<^verbatim>\<open>content\<close> is its content, and \<^verbatim>\<open>re.search\<close> raises when that is not a \<^verbatim>\<open>str\<close>.
\<close>

fun scan_items :: "message list \<Rightarrow> string option \<Rightarrow> py_exn + string option" where
  "scan_items [] place_of_birth = Inr place_of_birth"
| "scan_items (item # items) place_of_birth =
     (case content item of
        PyStr s \<Rightarrow>
          (case re_search False place_pattern s of
             Some json_match \<Rightarrow> Inr (group1 json_match)
           | None \<Rightarrow>
               (let place_of_birth = scan_patterns hospital_patterns s place_of_birth
                in if truthy place_of_birth then Inr place_of_birth
                   else scan_items items place_of_birth))
      | PyNone \<Rightarrow> Inl (TypeError ''expected string or bytes-like object'')
      | PyList l \<Rightarrow> Inl (TypeError ''expected string or bytes-like object''))"

text \<open>The body of the \<^verbatim>\<open>try\<close> (lines 200 to 276) for the list of messages the node passes.\<close>

definition call_external_try :: "message list \<Rightarrow> py_exn + pydict" where
  "call_external_try text =
     try_bind (scan_items text None) (\<lambda>place_of_birth.
       if truthy place_of_birth then
         (let verification_result = verify_place_of_birth (PyStr (get_or place_of_birth []))
          in Inr (dict_merge [(''verification_type'', JStr ''place_of_birth''),
                              (''input_data'', JStr (get_or place_of_birth []))]
                             verification_result))
       else
         Inr [(''verification_type'', JStr ''place_of_birth''),
              (''error'', JStr ''No place of birth information found in the provided data''),
              (''verification_notes'',
                 JArr [JStr ''Unable to extract place of birth from document''])])"

text \<open>The function: the handler of lines 278 to 280.\<close>

definition call_external_service :: "message list \<Rightarrow> pydict" where
  "call_external_service text =
     (case call_external_try text of
        Inr result \<Rightarrow> result
      | Inl e \<Rightarrow> [(''error'', JStr (str_exn e))])"


section \<open>The graph: \<^verbatim>\<open>builder\<close>\<close>

text \<open>
  What the calls on the \<^verbatim>\<open>StateGraph\<close> builder record: the nodes, the fixed edges, and the
  nodes whose successor the router names (\<^verbatim>\<open>add_conditional_edges\<close> without a path map
  takes the router's answer as the name of the next node).
\<close>

record graph =
  nodes :: "string list"
  edges :: "(string \<times> string) list"
  branches :: "string list"

definition START :: string where
  "START = ''__start__''"

definition END :: string where
  "END = ''__end__''"

definition StateGraph :: graph where
  "StateGraph = \<lparr>nodes = [], edges = [], branches = []\<rparr>"

definition add_node :: "string \<Rightarrow> graph \<Rightarrow> graph" where
  "add_node n g = g\<lparr>nodes := nodes g @ [n]\<rparr>"

definition add_edge :: "string \<Rightarrow> string \<Rightarrow> graph \<Rightarrow> graph" where
  "add_edge a b g = g\<lparr>edges := edges g @ [(a, b)]\<rparr>"

definition add_conditional_edges :: "string \<Rightarrow> graph \<Rightarrow> graph" where
  "add_conditional_edges n g = g\<lparr>branches := branches g @ [n]\<rparr>"

text \<open>Lines 233 to 251 and 345 to 348, in the order of the source.\<close>

definition builder :: graph where
  "builder =
     fold (\<lambda>call g. call g)
       [add_node ''generate'',
        add_node ''store'',
        add_node ''external_process'',
        add_node ''reflect'',
        add_node ''automatic_approval'',
        add_node ''human_approval'',
        add_edge START ''generate'',
        add_edge ''generate'' ''store'',
        add_edge ''store'' ''external_process'',
        add_edge ''external_process'' ''reflect'',
        add_edge ''automatic_approval'' END,
        add_edge ''human_approval'' END,
        add_conditional_edges ''reflect'']
       StateGraph"

text \<open>
  One step of a run: along a fixed edge, or from a branching node to the node that
  \<^verbatim>\<open>route_after_reflection\<close> names on the state the node left.
\<close>

inductive step :: "graph \<Rightarrow> string \<Rightarrow> string \<Rightarrow> bool" where
  step_edge: "(a, b) \<in> set (edges g) \<Longrightarrow> step g a b"
| step_branch: "a \<in> set (branches g) \<Longrightarrow> route_after_reflection json_loads messages = Inr b \<Longrightarrow>
           step g a b"

text \<open>The runs from the start: the sequences of nodes visited so far.\<close>

inductive run :: "graph \<Rightarrow> string list \<Rightarrow> bool" where
  run_start: "run g [START]"
| run_step: "run g (ns @ [a]) \<Longrightarrow> step g a b \<Longrightarrow> run g (ns @ [a, b])"

definition approved_path :: "string list" where
  "approved_path =
     [START, ''generate'', ''store'', ''external_process'', ''reflect'',
      ''automatic_approval'', END]"

definition review_path :: "string list" where
  "review_path =
     [START, ''generate'', ''store'', ''external_process'', ''reflect'',
      ''human_approval'', END]"


section \<open>The embedding resizer: \<^verbatim>\<open>embedding_retriever.py\<close>\<close>

text \<open>
  Floats are real numbers here. Division and the square root raise where Python's do, and
  a list is read and written by index with the bounds check of the source language.
\<close>

definition target_dimension :: nat where
  "target_dimension = 384"

definition py_truediv :: "real \<Rightarrow> real \<Rightarrow> py_exn + real" where
  "py_truediv a b = (if b = 0 then Inl (ZeroDivisionError ''float division by zero'') else Inr (a / b))"

definition math_sqrt :: "real \<Rightarrow> py_exn + real" where
  "math_sqrt x = (if x < 0 then Inl (ValueError ''math domain error'') else Inr (sqrt x))"

definition getitem :: "'a list \<Rightarrow> nat \<Rightarrow> py_exn + 'a" where
  "getitem xs j = (if j < length xs then Inr (xs ! j) else Inl (IndexError ''list index out of range''))"

definition setitem :: "'a list \<Rightarrow> nat \<Rightarrow> 'a \<Rightarrow> py_exn + 'a list" where
  "setitem xs i v =
     (if i < length xs then Inr (xs[i := v])
      else Inl (IndexError ''list assignment index out of range''))"

text \<open>A comprehension whose element expression may raise.\<close>

fun map_try :: "('a \<Rightarrow> py_exn + 'b) \<Rightarrow> 'a list \<Rightarrow> py_exn + 'b list" where
  "map_try f [] = Inr []"
| "map_try f (x # xs) = try_bind (f x) (\<lambda>y. try_bind (map_try f xs) (\<lambda>ys. Inr (y # ys)))"

text \<open>Line 42: \<^verbatim>\<open>math.sqrt(sum(val * val for val in vector))\<close>.\<close>

definition magnitude :: "real list \<Rightarrow> py_exn + real" where
  "magnitude vector = math_sqrt (sum_list (map (\<lambda>val. val * val) vector))"

text \<open>\<^verbatim>\<open>normalize_vector\<close>, lines 40 to 45.\<close>

definition normalize_vector :: "real list \<Rightarrow> py_exn + real list" where
  "normalize_vector vector =
     try_bind (magnitude vector) (\<lambda>m.
       if m = 0 then Inr vector
       else map_try (\<lambda>val. py_truediv val m) vector)"

text \<open>\<^verbatim>\<open>int(x)\<close> for a float that is not negative.\<close>

definition py_int :: "real \<Rightarrow> nat" where
  "py_int x = nat \<lfloor>x\<rfloor>"

text \<open>
  One pass of the loop of \<^verbatim>\<open>resize_embedding\<close> (lines 56 to 63): the bucket of index \<open>i\<close>
  is averaged into \<^verbatim>\<open>result[i]\<close>.
\<close>

definition resize_step :: "real list \<Rightarrow> real \<Rightarrow> nat \<Rightarrow> real list \<Rightarrow> py_exn + real list" where
  "resize_step embedding ratio i result =
     (let start = py_int (real i * ratio);
          end = py_int (real (i + 1) * ratio);
          end = (if end > length embedding then length embedding else end)
      in if start < end then
           try_bind (map_try (getitem embedding) [start..<end]) (\<lambda>vals.
           try_bind (py_truediv (sum_list vals) (real (end - start))) (\<lambda>avg.
             setitem result i avg))
         else Inr result)"

text \<open>The loop \<^verbatim>\<open>for i in range(self.target_dimension)\<close> over the indices still to do.\<close>

fun resize_loop :: "real list \<Rightarrow> real \<Rightarrow> nat list \<Rightarrow> real list \<Rightarrow> py_exn + real list" where
  "resize_loop embedding ratio [] result = Inr result"
| "resize_loop embedding ratio (i # is) result =
     try_bind (resize_step embedding ratio i result) (resize_loop embedding ratio is)"

text \<open>\<^verbatim>\<open>resize_embedding\<close>, lines 47 to 65.\<close>

definition resize_embedding :: "real list \<Rightarrow> py_exn + real list" where
  "resize_embedding embedding =
     (if length embedding = target_dimension then Inr embedding
      else
        try_bind (py_truediv (real (length embedding)) (real target_dimension)) (\<lambda>ratio.
        try_bind (resize_loop embedding ratio [0..<target_dimension]
                              (replicate target_dimension 0)) (\<lambda>result.
          normalize_vector result)))"

text \<open>
  The bucket averages as one expression: entry \<open>i\<close> is the mean of the entries of the
  embedding from \<open>\<lfloor>i * ratio\<rfloor>\<close> up to \<open>\<lfloor>(i + 1) * ratio\<rfloor>\<close> (at most the length), and 0 for
  an empty bucket.
\<close>

definition bucket :: "real list \<Rightarrow> nat \<Rightarrow> real" where
  "bucket embedding i =
     (let ratio = real (length embedding) / real target_dimension;
          start = py_int (real i * ratio);
          end = min (py_int (real (i + 1) * ratio)) (length embedding)
      in if start < end then (\<Sum>j = start..<end. embedding ! j) / real (end - start) else 0)"

definition bucket_average :: "real list \<Rightarrow> real list" where
  "bucket_average embedding = map (bucket embedding) [0..<target_dimension]"

section \<open>Basic facts\<close>

lemma try_bind_simps:
  "try_bind (Inl e) f = Inl e"
  "try_bind (Inr v) f = f v"
  by (simp_all add: try_bind_def)


section \<open>The router\<close>

lemma decide_num:
  "confidence_score st = JNum s \<Longrightarrow>
   decide st = Inr (if s < 75 / 100 then ''human_approval'' else ''automatic_approval'')"
  by (simp add: decide_def try_bind_simps)

text \<open>
  C1. Whenever the router extracts a numeric confidence score \<open>s\<close> from the last message,
  it answers \<^verbatim>\<open>"automatic_approval"\<close> if \<open>s \<ge> 0.75\<close> and \<^verbatim>\<open>"human_approval"\<close> if \<open>s < 0.75\<close>.
\<close>

theorem route_threshold:
  assumes "last_content messages = Inr last_message"
    and "clean_message last_message = Inr cleaned_message"
    and "extract_confidence json_loads cleaned_message = Inr st"
    and "confidence_score st = JNum s"
  shows "(75 / 100 \<le> s \<longrightarrow>
           route_after_reflection json_loads messages = Inr ''automatic_approval'')
       \<and> (s < 75 / 100 \<longrightarrow>
           route_after_reflection json_loads messages = Inr ''human_approval'')"
  using assms
  by (auto simp add: route_after_reflection_def route_try_def try_bind_simps decide_num)

theorem route_threshold_witness:
  \<open>route_after_reflection sample_loads
      [HumanMessage (PyStr ''{"confidence_score": 0.82, "message": "verified"}'')]
     = Inr ''automatic_approval''
   \<and> route_after_reflection sample_loads
      [HumanMessage (PyStr ''"confidence_score": 0.74'')]
     = Inr ''human_approval''\<close>
proof -
  have a1: \<open>last_content [HumanMessage (PyStr ''{"confidence_score": 0.82, "message": "verified"}'')]
              = Inr (PyStr ''{"confidence_score": 0.82, "message": "verified"}'')\<close>
    by (simp add: last_content_def HumanMessage_def)
  have a2: \<open>clean_message (PyStr ''{"confidence_score": 0.82, "message": "verified"}'')
              = Inr ''{"confidence_score": 0.82, "message": "verified"}''\<close>
    by code_simp
  have a3: \<open>extract_confidence sample_loads ''{"confidence_score": 0.82, "message": "verified"}''
              = Inr \<lparr>confidence_score = JNum (82 / 100), message_text = JStr ''verified''\<rparr>\<close>
    by code_simp
  have b1: \<open>last_content [HumanMessage (PyStr ''"confidence_score": 0.74'')]
              = Inr (PyStr ''"confidence_score": 0.74'')\<close>
    by (simp add: last_content_def HumanMessage_def)
  have b2: \<open>clean_message (PyStr ''"confidence_score": 0.74'') = Inr ''"confidence_score": 0.74''\<close>
    by code_simp
  have b3: \<open>extract_confidence sample_loads ''"confidence_score": 0.74''
              = Inr \<lparr>confidence_score = JNum (74 / 100), message_text = JStr []\<rparr>\<close>
    by code_simp
  show ?thesis
    using route_threshold [OF a1 a2 a3, of "82 / 100"] route_threshold [OF b1 b2 b3, of "74 / 100"]
    by simp
qed


lemma approach2_skip: "confidence_score st \<noteq> JNull \<Longrightarrow> approach2 c st = Inr st"
  by (simp add: approach2_def)

lemma approach3_skip: "confidence_score st \<noteq> JNull \<Longrightarrow> approach3 c st = Inr st"
  by (simp add: approach3_def)

lemma approach2_score_indep:
  "confidence_score st = JNull \<Longrightarrow>
   try_bind (approach2 c st) (\<lambda>st. Inr (confidence_score st)) = key_value_score c"
  by (auto simp add: approach2_def key_value_score_def extraction_init_def try_bind_def Let_def
      split: option.splits sum.splits)

lemma first_reasonable_score_indep:
  "confidence_score st = confidence_score st' \<Longrightarrow>
   try_bind (first_reasonable ns st) (\<lambda>st. Inr (confidence_score st))
   = try_bind (first_reasonable ns st') (\<lambda>st. Inr (confidence_score st))"
  by (induction ns) (auto simp add: try_bind_def split: sum.splits)

lemma approach3_score_indep:
  "confidence_score st = JNull \<Longrightarrow>
   try_bind (approach3 c st) (\<lambda>st. Inr (confidence_score st)) = bare_decimal_score c"
  using first_reasonable_score_indep [of st extraction_init "re_findall False number_pattern c"]
  by (simp add: approach3_def bare_decimal_score_def extraction_init_def Let_def try_bind_simps)

lemma extract_score_eq:
  "try_bind (extract_confidence json_loads cleaned_message) (\<lambda>st. Inr (confidence_score st))
   = first_score json_loads cleaned_message"
proof (cases "approach1 json_loads cleaned_message extraction_init")
  case (Inl e)
  then show ?thesis
    by (simp add: extract_confidence_def first_score_def json_object_score_def try_bind_simps)
next
  case a1: (Inr st1)
  show ?thesis
  proof (cases "confidence_score st1 = JNull")
    case False
    then show ?thesis using a1
      by (simp add: extract_confidence_def first_score_def json_object_score_def try_bind_simps
          approach2_skip approach3_skip)
  next
    case n1: True
    show ?thesis
    proof (cases "approach2 cleaned_message st1")
      case (Inl e)
      then have "key_value_score cleaned_message = Inl e"
        using approach2_score_indep [OF n1, of cleaned_message] by (simp add: try_bind_simps)
      then show ?thesis using a1 Inl n1
        by (simp add: extract_confidence_def first_score_def json_object_score_def try_bind_simps)
    next
      case a2: (Inr st2)
      then have kv: "key_value_score cleaned_message = Inr (confidence_score st2)"
        using approach2_score_indep [OF n1, of cleaned_message] by (simp add: try_bind_simps)
      show ?thesis
      proof (cases "confidence_score st2 = JNull")
        case True
        then show ?thesis
          using a1 a2 n1 kv approach3_score_indep [OF True, of cleaned_message]
          by (simp add: extract_confidence_def first_score_def json_object_score_def try_bind_simps)
      next
        case False
        then show ?thesis using a1 a2 n1 kv
          by (simp add: extract_confidence_def first_score_def json_object_score_def try_bind_simps
              approach3_skip)
      qed
    qed
  qed
qed

text \<open>
  C2. The score the router extracts is the score of the first approach that yields one,
  in the order JSON-object pattern, key-value pattern, bare-decimal fallback: a later
  approach counts only if every earlier one yielded no score (and raised nothing).
\<close>

theorem extraction_order:
  "try_bind (extract_confidence json_loads cleaned_message) (\<lambda>st. Inr (confidence_score st))
   = try_bind (json_object_score json_loads cleaned_message) (\<lambda>s1.
       if s1 \<noteq> JNull then Inr s1
       else try_bind (key_value_score cleaned_message) (\<lambda>s2.
         if s2 \<noteq> JNull then Inr s2
         else bare_decimal_score cleaned_message))"
  using extract_score_eq [of json_loads cleaned_message] by (simp add: first_score_def)

theorem extraction_order_witness:
  \<open>json_object_score sample_loads
      ''0.1 "confidence_score": 0.5 {"confidence_score": 0.82, "message": "verified"}''
     = Inr (JNum (82 / 100))
   \<and> key_value_score
      ''0.1 "confidence_score": 0.5 {"confidence_score": 0.82, "message": "verified"}''
     = Inr (JNum (5 / 10))
   \<and> bare_decimal_score
      ''0.1 "confidence_score": 0.5 {"confidence_score": 0.82, "message": "verified"}''
     = Inr (JNum (1 / 10))
   \<and> try_bind (extract_confidence sample_loads
        ''0.1 "confidence_score": 0.5 {"confidence_score": 0.82, "message": "verified"}'')
        (\<lambda>st. Inr (confidence_score st))
     = Inr (JNum (82 / 100))
   \<and> try_bind (extract_confidence sample_loads ''0.1 "confidence_score": 0.5'')
        (\<lambda>st. Inr (confidence_score st))
     = Inr (JNum (5 / 10))
   \<and> try_bind (extract_confidence sample_loads ''0.1 is all'')
        (\<lambda>st. Inr (confidence_score st))
     = Inr (JNum (1 / 10))\<close>
proof -
  have j1: \<open>json_object_score sample_loads
      ''0.1 "confidence_score": 0.5 {"confidence_score": 0.82, "message": "verified"}''
     = Inr (JNum (82 / 100))\<close>
    by code_simp
  have k1: \<open>key_value_score
      ''0.1 "confidence_score": 0.5 {"confidence_score": 0.82, "message": "verified"}''
     = Inr (JNum (5 / 10))\<close>
    by code_simp
  have b1: \<open>bare_decimal_score
      ''0.1 "confidence_score": 0.5 {"confidence_score": 0.82, "message": "verified"}''
     = Inr (JNum (1 / 10))\<close>
    by code_simp
  have j2: \<open>json_object_score sample_loads ''0.1 "confidence_score": 0.5'' = Inr JNull\<close>
    by code_simp
  have k2: \<open>key_value_score ''0.1 "confidence_score": 0.5'' = Inr (JNum (5 / 10))\<close>
    by code_simp
  have j3: \<open>json_object_score sample_loads ''0.1 is all'' = Inr JNull\<close>
    by code_simp
  have k3: \<open>key_value_score ''0.1 is all'' = Inr JNull\<close>
    by code_simp
  have b3: \<open>bare_decimal_score ''0.1 is all'' = Inr (JNum (1 / 10))\<close>
    by code_simp
  show ?thesis
    using extraction_order [of sample_loads
            \<open>''0.1 "confidence_score": 0.5 {"confidence_score": 0.82, "message": "verified"}''\<close>]
          extraction_order [of sample_loads \<open>''0.1 "confidence_score": 0.5''\<close>]
          extraction_order [of sample_loads \<open>''0.1 is all''\<close>]
    by (simp only: j1 k1 b1 j2 k2 j3 k3 b3 try_bind_simps json.distinct simp_thms if_True if_False)
qed

lemma first_reasonable_range:
  "first_reasonable ns st = Inr st' \<Longrightarrow>
   confidence_score st' = confidence_score st
   \<or> (\<exists>s. confidence_score st' = JNum s \<and> 0 \<le> s \<and> s \<le> 1)"
  by (induction ns) (auto simp add: try_bind_def split: sum.splits if_splits)

lemma py_float_nonneg: "py_float g = Inr f \<Longrightarrow> 0 \<le> f"
  by (auto simp add: py_float_def Let_def split: list.splits if_splits)

lemma bare_decimal_range:
  assumes "bare_decimal_score cleaned_message = Inr v"
  shows "v = JNull \<or> (\<exists>s. v = JNum s \<and> 0 \<le> s \<and> s \<le> 1)"
  using assms
    first_reasonable_range [of "re_findall False number_pattern cleaned_message" extraction_init]
  by (auto simp add: bare_decimal_score_def approach3_def Let_def try_bind_def extraction_init_def
      split: sum.splits if_splits)

lemma key_value_range:
  assumes "key_value_score cleaned_message = Inr v"
  shows "v = JNull \<or> (\<exists>s. v = JNum s \<and> 0 \<le> s)"
  using assms
  by (auto simp add: key_value_score_def approach2_def Let_def try_bind_def extraction_init_def
      split: sum.splits if_splits option.splits dest: py_float_nonneg)

text \<open>
  Only the bare-decimal fallback checks the range (line 318): what it extracts is a decimal
  in \<open>[0,1]\<close>, also as the router's final score when the two earlier approaches yielded
  none. The key-value approach checks nothing; its pattern admits no sign.
\<close>

lemma fallback_score_in_unit_interval:
  "(bare_decimal_score cleaned_message = Inr v \<longrightarrow>
      v = JNull \<or> (\<exists>s. v = JNum s \<and> 0 \<le> s \<and> s \<le> 1))
   \<and> (key_value_score cleaned_message = Inr v \<longrightarrow>
      v = JNull \<or> (\<exists>s. v = JNum s \<and> 0 \<le> s))
   \<and> (json_object_score json_loads cleaned_message = Inr JNull
        \<and> key_value_score cleaned_message = Inr JNull
        \<and> extract_confidence json_loads cleaned_message = Inr st \<longrightarrow>
      confidence_score st = JNull
      \<or> (\<exists>s. confidence_score st = JNum s \<and> 0 \<le> s \<and> s \<le> 1))"
proof (intro conjI impI)
  assume "bare_decimal_score cleaned_message = Inr v"
  then show "v = JNull \<or> (\<exists>s. v = JNum s \<and> 0 \<le> s \<and> s \<le> 1)"
    by (rule bare_decimal_range)
next
  assume "key_value_score cleaned_message = Inr v"
  then show "v = JNull \<or> (\<exists>s. v = JNum s \<and> 0 \<le> s)"
    by (rule key_value_range)
next
  assume a: "json_object_score json_loads cleaned_message = Inr JNull
        \<and> key_value_score cleaned_message = Inr JNull
        \<and> extract_confidence json_loads cleaned_message = Inr st"
  then have "bare_decimal_score cleaned_message = Inr (confidence_score st)"
    using extract_score_eq [of json_loads cleaned_message]
    by (simp add: first_score_def try_bind_simps)
  then show "confidence_score st = JNull
      \<or> (\<exists>s. confidence_score st = JNum s \<and> 0 \<le> s \<and> s \<le> 1)"
    by (rule bare_decimal_range)
qed

text \<open>
  C3. The claim is that every score the router extracts, by any of its three approaches,
  is a decimal in \<open>[0,1]\<close>. The code breaks it: the JSON-object approach and the key-value
  approach take the value under the key without the check that the third approach makes.
  From \<^verbatim>\<open>"confidence_score": 5\<close> the key-value approach extracts 5, from the object
  \<^verbatim>\<open>{"confidence_score": 7, "message": "certain"}\<close> the JSON-object approach extracts 7, and
  the router sends both to automatic approval; the fallback, run on the first text, would
  have found no score at all.
\<close>

theorem score_out_of_range:
  \<open>extract_confidence sample_loads ''"confidence_score": 5''
     = Inr \<lparr>confidence_score = JNum 5, message_text = JStr []\<rparr>
   \<and> route_after_reflection sample_loads [HumanMessage (PyStr ''"confidence_score": 5'')]
     = Inr ''automatic_approval''
   \<and> bare_decimal_score ''"confidence_score": 5'' = Inr JNull
   \<and> extract_confidence sample_loads ''{"confidence_score": 7, "message": "certain"}''
     = Inr \<lparr>confidence_score = JNum 7, message_text = JStr ''certain''\<rparr>
   \<and> route_after_reflection sample_loads
        [HumanMessage (PyStr ''{"confidence_score": 7, "message": "certain"}'')]
     = Inr ''automatic_approval''
   \<and> \<not> (5::rat) \<le> 1 \<and> \<not> (7::rat) \<le> 1\<close>
proof -
  have e5: \<open>extract_confidence sample_loads ''"confidence_score": 5''
     = Inr \<lparr>confidence_score = JNum 5, message_text = JStr []\<rparr>\<close>
    by code_simp
  have r5: \<open>route_after_reflection sample_loads [HumanMessage (PyStr ''"confidence_score": 5'')]
     = Inr ''automatic_approval''\<close>
    by code_simp
  have b5: \<open>bare_decimal_score ''"confidence_score": 5'' = Inr JNull\<close>
    by code_simp
  have e7: \<open>extract_confidence sample_loads ''{"confidence_score": 7, "message": "certain"}''
     = Inr \<lparr>confidence_score = JNum 7, message_text = JStr ''certain''\<rparr>\<close>
    by code_simp
  have r7: \<open>route_after_reflection sample_loads
        [HumanMessage (PyStr ''{"confidence_score": 7, "message": "certain"}'')]
     = Inr ''automatic_approval''\<close>
    by code_simp
  show ?thesis
    using e5 r5 b5 e7 r7 by simp
qed

text \<open>
  On a state with at least one message the router answers one of the two labels, and it
  answers \<^verbatim>\<open>"human_approval"\<close> whenever the body of its \<^verbatim>\<open>try\<close> raises and whenever no
  score is extracted.
\<close>

lemma route_on_nonempty:
  assumes "messages \<noteq> []"
  shows "(route_after_reflection json_loads messages = Inr ''automatic_approval''
          \<or> route_after_reflection json_loads messages = Inr ''human_approval'')
       \<and> (\<forall>e. route_try json_loads (content (last messages)) = Inl e \<longrightarrow>
             route_after_reflection json_loads messages = Inr ''human_approval'')
       \<and> (\<forall>c st. clean_message (content (last messages)) = Inr c
                 \<and> extract_confidence json_loads c = Inr st \<and> confidence_score st = JNull \<longrightarrow>
             route_after_reflection json_loads messages = Inr ''human_approval'')"
proof -
  have lc: "last_content messages = Inr (content (last messages))"
    using assms by (simp add: last_content_def)
  have labels: "l = ''automatic_approval'' \<or> l = ''human_approval''"
    if "route_try json_loads m = Inr l" for m l
    using that
    by (auto simp add: route_try_def decide_def try_bind_def split: sum.splits if_splits)
  have 1: "route_after_reflection json_loads messages = Inr ''automatic_approval''
          \<or> route_after_reflection json_loads messages = Inr ''human_approval''"
    using labels [of "content (last messages)"]
    by (cases "route_try json_loads (content (last messages))")
       (auto simp add: route_after_reflection_def lc try_bind_simps)
  have 2: "\<forall>e. route_try json_loads (content (last messages)) = Inl e \<longrightarrow>
             route_after_reflection json_loads messages = Inr ''human_approval''"
    by (simp add: route_after_reflection_def lc try_bind_simps)
  have 3: "\<forall>c st. clean_message (content (last messages)) = Inr c
                 \<and> extract_confidence json_loads c = Inr st \<and> confidence_score st = JNull \<longrightarrow>
             route_after_reflection json_loads messages = Inr ''human_approval''"
    by (auto simp add: route_after_reflection_def lc try_bind_simps route_try_def decide_def)
  show ?thesis using 1 2 3 by blast
qed

section \<open>The reflection node\<close>

lemma final_attempt_continue_bound:
  "reflection_attempt json_loads llm attempt translated rc = Continue t' rc' \<Longrightarrow>
   Suc attempt = max_attempts \<Longrightarrow> rc' \<noteq> None"
  by (auto simp add: reflection_attempt_def reflection_try_def max_attempts_def
      split: try_outcome.splits sum.splits if_splits)

lemma reflection_loop_returns:
  "attempt \<le> max_attempts \<Longrightarrow> (attempt = max_attempts \<longrightarrow> rc \<noteq> None) \<Longrightarrow>
   \<exists>out n. reflection_loop json_loads llm attempt translated rc = (Inr out, n)
      \<and> attempt \<le> n \<and> n \<le> max_attempts"
proof (induction json_loads llm attempt translated rc rule: reflection_loop.induct)
  case (1 json_loads llm attempt translated response_content)
  show ?case
  proof (cases "attempt < max_attempts")
    case False
    with "1.prems" show ?thesis by (auto simp: reflection_loop.simps [of _ _ attempt])
  next
    case True
    show ?thesis
    proof (cases "reflection_attempt json_loads llm attempt translated response_content")
      case (Return out)
      with True show ?thesis by (auto simp: reflection_loop.simps [of _ _ attempt])
    next
      case (Continue t' rc')
      have "\<exists>out n. reflection_loop json_loads llm (Suc attempt) t' rc' = (Inr out, n)
          \<and> Suc attempt \<le> n \<and> n \<le> max_attempts"
        using "1.IH" [OF True Continue] True final_attempt_continue_bound [OF Continue]
        by auto
      then show ?thesis using True Continue
        by (auto simp: reflection_loop.simps [of _ _ attempt])
    qed
  qed
qed

text \<open>
  C4. The reflection node calls the model at most 3 times, whatever the model answers,
  and once its messages are translated it always returns a response: the loop ends after
  the last attempt and line 230 finds \<^verbatim>\<open>response_content\<close> bound.
\<close>

theorem reflection_bounded_retries:
  "snd (reflection_node json_loads llm messages) \<le> 3
   \<and> (\<forall>translated. translate messages = Inr translated \<longrightarrow>
        (\<exists>out. fst (reflection_node json_loads llm messages) = Inr out))"
proof (cases "translate messages")
  case (Inl e)
  then show ?thesis by (simp add: reflection_node_def)
next
  case (Inr translated)
  obtain out n where "reflection_loop json_loads llm 0 translated None = (Inr out, n)"
    "n \<le> max_attempts"
    using reflection_loop_returns [of 0 None json_loads llm translated]
    by (auto simp add: max_attempts_def)
  then show ?thesis using Inr by (simp add: reflection_node_def max_attempts_def)
qed

theorem reflection_bounded_retries_witness:
  "translate [HumanMessage (PyStr ''topic''), AIMessage (PyStr ''extracted'')]
     = Inr [HumanMessage (PyStr ''topic''), HumanMessage (PyStr ''extracted'')]
   \<and> reflection_node sample_loads chatty_llm
        [HumanMessage (PyStr ''topic''), AIMessage (PyStr ''extracted'')]
     = (Inr [HumanMessage (PyStr ''I think it is fine'')], 3)
   \<and> snd (reflection_node sample_loads chatty_llm
        [HumanMessage (PyStr ''topic''), AIMessage (PyStr ''extracted'')]) \<le> 3"
proof -
  have t: "translate [HumanMessage (PyStr ''topic''), AIMessage (PyStr ''extracted'')]
     = Inr [HumanMessage (PyStr ''topic''), HumanMessage (PyStr ''extracted'')]"
    by code_simp
  have r: "reflection_node sample_loads chatty_llm
        [HumanMessage (PyStr ''topic''), AIMessage (PyStr ''extracted'')]
     = (Inr [HumanMessage (PyStr ''I think it is fine'')], 3)"
    by code_simp
  show ?thesis
    using reflection_bounded_retries
            [of sample_loads chatty_llm
                "[HumanMessage (PyStr ''topic''), AIMessage (PyStr ''extracted'')]"] t r
    by simp
qed

lemma final_raise_fallback:
  assumes "reflection_try json_loads llm (max_attempts - 1) translated rc = Raised e rc'"
  shows "reflection_loop json_loads llm (max_attempts - 1) translated rc
         = (Inr [HumanMessage (PyStr fallback_response)], max_attempts)"
  using assms
  by (simp add: reflection_loop.simps [of _ _ "max_attempts - 1"] reflection_attempt_def)
     (simp add: max_attempts_def)


section \<open>The router after the reflection node\<close>

lemma reflection_attempt_message:
  "reflection_attempt json_loads llm attempt translated rc = Return out \<Longrightarrow>
   \<exists>c. out = [HumanMessage (PyStr c)]"
  by (auto simp add: reflection_attempt_def reflection_try_def
      split: try_outcome.splits sum.splits if_splits)

lemma reflection_loop_message:
  "reflection_loop json_loads llm attempt translated rc = (Inr out, n) \<Longrightarrow>
   \<exists>c. out = [HumanMessage (PyStr c)]"
proof (induction json_loads llm attempt translated rc rule: reflection_loop.induct)
  case (1 json_loads llm attempt translated response_content)
  show ?case
  proof (cases "attempt < max_attempts")
    case False
    with "1.prems" show ?thesis
      by (auto simp: reflection_loop.simps [of _ _ attempt] split: option.splits)
  next
    case True
    show ?thesis
    proof (cases "reflection_attempt json_loads llm attempt translated response_content")
      case (Return out')
      with True "1.prems" have "out' = out"
        by (simp add: reflection_loop.simps [of _ _ attempt])
      with Return show ?thesis by (auto dest: reflection_attempt_message)
    next
      case (Continue t' rc')
      with True "1.prems"
      have "reflection_loop json_loads llm (Suc attempt) t' rc' = (Inr out, n)"
        by (simp add: reflection_loop.simps [of _ _ attempt])
      then show ?thesis by (rule "1.IH" [OF True Continue])
    qed
  qed
qed

lemma reflection_node_message:
  assumes "fst (reflection_node json_loads llm messages) = Inr out"
  shows "\<exists>c. out = [HumanMessage (PyStr c)]"
proof (cases "translate messages")
  case (Inl e)
  with assms show ?thesis by (simp add: reflection_node_def)
next
  case (Inr translated)
  with assms have "reflection_loop json_loads llm 0 translated None
      = (Inr out, snd (reflection_loop json_loads llm 0 translated None))"
    by (simp add: reflection_node_def prod_eq_iff)
  then show ?thesis by (rule reflection_loop_message)
qed

text \<open>
  C8. The router is total over the two labels on every state it is called on, which is
  the state the reflection node has added its message to: it answers
  \<^verbatim>\<open>"automatic_approval"\<close> or \<^verbatim>\<open>"human_approval"\<close>, reading the reflection output, and it
  answers \<^verbatim>\<open>"human_approval"\<close> whenever the body of its \<^verbatim>\<open>try\<close> raises and whenever no
  score is extracted.
\<close>

theorem route_total:
  assumes "fst (reflection_node json_loads llm messages) = Inr out"
  shows "last_content (add_messages messages out) = Inr (content (last out))
       \<and> (route_after_reflection json_loads (add_messages messages out) = Inr ''automatic_approval''
          \<or> route_after_reflection json_loads (add_messages messages out) = Inr ''human_approval'')
       \<and> (\<forall>e. route_try json_loads (content (last out)) = Inl e \<longrightarrow>
             route_after_reflection json_loads (add_messages messages out)
             = Inr ''human_approval'')
       \<and> (\<forall>c st. clean_message (content (last out)) = Inr c
                 \<and> extract_confidence json_loads c = Inr st \<and> confidence_score st = JNull \<longrightarrow>
             route_after_reflection json_loads (add_messages messages out)
             = Inr ''human_approval'')"
proof -
  obtain c where out: "out = [HumanMessage (PyStr c)]"
    using reflection_node_message [OF assms] by blast
  have ne: "add_messages messages out \<noteq> []"
    by (simp add: add_messages_def out)
  have l: "last (add_messages messages out) = last out"
    by (simp add: add_messages_def out)
  have lc: "last_content (add_messages messages out) = Inr (content (last out))"
    using ne by (simp add: last_content_def l)
  show ?thesis
    using route_on_nonempty [OF ne, of json_loads] lc unfolding l by blast
qed

theorem route_total_witness:
  \<open>reflection_node sample_loads chatty_llm
      [HumanMessage (PyStr ''topic''), AIMessage (PyStr ''extracted'')]
     = (Inr [HumanMessage (PyStr ''I think it is fine'')], 3)
   \<and> extract_confidence sample_loads ''I think it is fine'' = Inr extraction_init
   \<and> route_after_reflection sample_loads
        (add_messages [HumanMessage (PyStr ''topic''), AIMessage (PyStr ''extracted'')]
                      [HumanMessage (PyStr ''I think it is fine'')])
     = Inr ''human_approval''
   \<and> reflection_node sample_loads json_llm
      [HumanMessage (PyStr ''topic''), AIMessage (PyStr ''extracted'')]
     = (Inr [HumanMessage (PyStr ''{"confidence_score": 0.82, "message": "verified"}'')], 1)
   \<and> route_after_reflection sample_loads
        (add_messages [HumanMessage (PyStr ''topic''), AIMessage (PyStr ''extracted'')]
                      [HumanMessage (PyStr ''{"confidence_score": 0.82, "message": "verified"}'')])
     = Inr ''automatic_approval''\<close>
proof -
  have n1: \<open>reflection_node sample_loads chatty_llm
      [HumanMessage (PyStr ''topic''), AIMessage (PyStr ''extracted'')]
     = (Inr [HumanMessage (PyStr ''I think it is fine'')], 3)\<close>
    by code_simp
  have c1: \<open>clean_message (content (last [HumanMessage (PyStr ''I think it is fine'')]))
     = Inr ''I think it is fine''\<close>
    by code_simp
  have e1: \<open>extract_confidence sample_loads ''I think it is fine'' = Inr extraction_init\<close>
    by code_simp
  have z: "confidence_score extraction_init = JNull"
    by (simp add: extraction_init_def)
  have n2: \<open>reflection_node sample_loads json_llm
      [HumanMessage (PyStr ''topic''), AIMessage (PyStr ''extracted'')]
     = (Inr [HumanMessage (PyStr ''{"confidence_score": 0.82, "message": "verified"}'')], 1)\<close>
    by code_simp
  have r2: \<open>route_after_reflection sample_loads
        (add_messages [HumanMessage (PyStr ''topic''), AIMessage (PyStr ''extracted'')]
                      [HumanMessage (PyStr ''{"confidence_score": 0.82, "message": "verified"}'')])
     \<noteq> Inr ''human_approval''\<close>
    by code_simp
  have f1: \<open>fst (reflection_node sample_loads chatty_llm
      [HumanMessage (PyStr ''topic''), AIMessage (PyStr ''extracted'')])
     = Inr [HumanMessage (PyStr ''I think it is fine'')]\<close>
    by (simp add: n1)
  have f2: \<open>fst (reflection_node sample_loads json_llm
      [HumanMessage (PyStr ''topic''), AIMessage (PyStr ''extracted'')])
     = Inr [HumanMessage (PyStr ''{"confidence_score": 0.82, "message": "verified"}'')]\<close>
    by (simp add: n2)
  show ?thesis
    using route_total [OF f1] route_total [OF f2] n1 n2 c1 e1 z r2
    by auto
qed

text \<open>
  Line 258 reads the last message outside the \<^verbatim>\<open>try\<close>: on a state without messages, which
  the graph never hands to the router, its \<^verbatim>\<open>IndexError\<close> would leave the function.
\<close>

lemma route_empty_state_raises:
  "route_after_reflection json_loads [] = Inl (IndexError ''list index out of range'')"
  by (simp add: route_after_reflection_def last_content_def try_bind_simps)


section \<open>Errors as results\<close>

text \<open>
  C5. An exception in the last reflection attempt makes the node return the fallback
  message, whose confidence score reads 0.5; an exception inside \<^verbatim>\<open>verify_place_of_birth\<close>
  or \<^verbatim>\<open>call_external_service\<close> makes the function return a dict whose \<^verbatim>\<open>"error"\<close> field
  holds the exception's text. In none of the three does the exception leave the function.
\<close>

theorem errors_become_results:
  "(reflection_try json_loads llm (max_attempts - 1) translated rc = Raised e rc' \<longrightarrow>
      reflection_loop json_loads llm (max_attempts - 1) translated rc
      = (Inr [HumanMessage (PyStr fallback_response)], max_attempts))
   \<and> key_value_score fallback_response = Inr (JNum (5 / 10))
   \<and> (verify_try place_name = Inl e \<longrightarrow>
      map_of (verify_place_of_birth place_name) ''error'' = Some (JStr (str_exn e)))
   \<and> (call_external_try items = Inl e \<longrightarrow>
      map_of (call_external_service items) ''error'' = Some (JStr (str_exn e)))"
proof (intro conjI impI)
  assume "reflection_try json_loads llm (max_attempts - 1) translated rc = Raised e rc'"
  then show "reflection_loop json_loads llm (max_attempts - 1) translated rc
      = (Inr [HumanMessage (PyStr fallback_response)], max_attempts)"
    by (rule final_raise_fallback)
next
  show "key_value_score fallback_response = Inr (JNum (5 / 10))"
    by code_simp
next
  assume "verify_try place_name = Inl e"
  then show "map_of (verify_place_of_birth place_name) ''error'' = Some (JStr (str_exn e))"
    by (simp add: verify_place_of_birth_def)
next
  assume "call_external_try items = Inl e"
  then show "map_of (call_external_service items) ''error'' = Some (JStr (str_exn e))"
    by (simp add: call_external_service_def)
qed

theorem errors_become_results_witness:
  "reflection_try sample_loads failing_llm (max_attempts - 1) [] None
     = Raised (OtherException ''Connection error.'') None
   \<and> reflection_loop sample_loads failing_llm (max_attempts - 1) [] None
     = (Inr [HumanMessage (PyStr fallback_response)], max_attempts)
   \<and> reflection_node sample_loads failing_llm
        [HumanMessage (PyStr ''topic''), AIMessage (PyStr ''extracted'')]
     = (Inr [HumanMessage (PyStr fallback_response)], 3)
   \<and> verify_try PyNone = Inl (AttributeError ''object has no attribute lower'')
   \<and> map_of (verify_place_of_birth PyNone) ''error''
     = Some (JStr ''object has no attribute lower'')
   \<and> call_external_try [AIMessage (PyList [])]
     = Inl (TypeError ''expected string or bytes-like object'')
   \<and> map_of (call_external_service [AIMessage (PyList [])]) ''error''
     = Some (JStr ''expected string or bytes-like object'')"
proof -
  have r: "reflection_try sample_loads failing_llm (max_attempts - 1) [] None
     = Raised (OtherException ''Connection error.'') None"
    by (simp add: reflection_try_def failing_llm_def)
  have n: "reflection_node sample_loads failing_llm
        [HumanMessage (PyStr ''topic''), AIMessage (PyStr ''extracted'')]
     = (Inr [HumanMessage (PyStr fallback_response)], 3)"
    by code_simp
  have v: "verify_try PyNone = Inl (AttributeError ''object has no attribute lower'')"
    by simp
  have c: "call_external_try [AIMessage (PyList [])]
     = Inl (TypeError ''expected string or bytes-like object'')"
    by (simp add: call_external_try_def AIMessage_def try_bind_simps)
  show ?thesis
    using errors_become_results
            [of sample_loads failing_llm "[]" None "OtherException ''Connection error.''" None
                "PyStr []" "[]"]
          errors_become_results
            [of sample_loads failing_llm "[]" None "AttributeError ''object has no attribute lower''"
                None PyNone "[]"]
          errors_become_results
            [of sample_loads failing_llm "[]" None
                "TypeError ''expected string or bytes-like object''" None
                PyNone "[AIMessage (PyList [])]"]
          r n v c
    by simp
qed

section \<open>Place verification\<close>

text \<open>
  C6. For every place-of-birth string, \<^verbatim>\<open>verify_place_of_birth\<close> looks the normalised name
  up in the table: an exact key gives confidence 0.95 and \<^verbatim>\<open>place_verified\<close> true, a key
  that contains the name or is contained in it gives 0.90 and true, and no match gives
  0.2 and false.
\<close>

theorem verify_place_scores:
  "(normalize_place s \<in> fst ` set known_hospitals \<longrightarrow>
      map_of (verify_place_of_birth (PyStr s)) ''confidence_score'' = Some (JNum (95 / 100))
      \<and> map_of (verify_place_of_birth (PyStr s)) ''place_verified'' = Some (JBool True))
   \<and> (normalize_place s \<notin> fst ` set known_hospitals
       \<and> (\<exists>key \<in> fst ` set known_hospitals.
             contains key (normalize_place s) \<or> contains (normalize_place s) key) \<longrightarrow>
      map_of (verify_place_of_birth (PyStr s)) ''confidence_score'' = Some (JNum (90 / 100))
      \<and> map_of (verify_place_of_birth (PyStr s)) ''place_verified'' = Some (JBool True))
   \<and> (normalize_place s \<notin> fst ` set known_hospitals
       \<and> \<not> (\<exists>key \<in> fst ` set known_hospitals.
             contains key (normalize_place s) \<or> contains (normalize_place s) key) \<longrightarrow>
      map_of (verify_place_of_birth (PyStr s)) ''confidence_score'' = Some (JNum (2 / 10))
      \<and> map_of (verify_place_of_birth (PyStr s)) ''place_verified'' = Some (JBool False))"
proof -
  let ?np = "normalize_place s"
  let ?P = "\<lambda>(key, hospital :: hospital). contains key ?np \<or> contains ?np key"
  have exact: "map_of known_hospitals ?np = None \<longleftrightarrow> ?np \<notin> fst ` set known_hospitals"
    by (simp add: map_of_eq_None_iff)
  have partial: "find ?P known_hospitals = None \<longleftrightarrow>
      \<not> (\<exists>key \<in> fst ` set known_hospitals. contains key ?np \<or> contains ?np key)"
    by (auto simp add: find_None_iff)
  show ?thesis
    using exact partial
    by (auto simp add: verify_place_of_birth_def verify_str_def Let_def
        split: option.splits prod.splits)
qed

lemma hospital_keys:
  "fst ` set known_hospitals
   = {''armidale and new england hospital'', ''royal north shore hospital'', ''westmead hospital''}"
  by (simp add: known_hospitals_def)

theorem verify_place_scores_witness:
  "normalize_place '' Westmead Hospital, NSW, Australia'' = ''westmead hospital''
   \<and> map_of (verify_place_of_birth (PyStr '' Westmead Hospital, NSW, Australia''))
        ''confidence_score'' = Some (JNum (95 / 100))
   \<and> normalize_place ''Royal North Shore Hospital, Sydney'' = ''royal north shore hospital, sydney''
   \<and> map_of (verify_place_of_birth (PyStr ''Royal North Shore Hospital, Sydney''))
        ''confidence_score'' = Some (JNum (90 / 100))
   \<and> normalize_place ''St Mary Clinic'' = ''st mary clinic''
   \<and> map_of (verify_place_of_birth (PyStr ''St Mary Clinic''))
        ''confidence_score'' = Some (JNum (2 / 10))
   \<and> map_of (verify_place_of_birth (PyStr ''St Mary Clinic''))
        ''place_verified'' = Some (JBool False)"
proof -
  have n1: "normalize_place '' Westmead Hospital, NSW, Australia'' = ''westmead hospital''"
    by code_simp
  have n2: "normalize_place ''Royal North Shore Hospital, Sydney''
            = ''royal north shore hospital, sydney''"
    by code_simp
  have c2: "contains ''royal north shore hospital'' ''royal north shore hospital, sydney''"
    by code_simp
  have n3: "normalize_place ''St Mary Clinic'' = ''st mary clinic''"
    by code_simp
  have c3: "\<not> (\<exists>key \<in> {''armidale and new england hospital'', ''royal north shore hospital'',
                         ''westmead hospital''}.
                contains key ''st mary clinic'' \<or> contains ''st mary clinic'' key)"
    by code_simp
  show ?thesis
    using verify_place_scores [of "'' Westmead Hospital, NSW, Australia''"]
          verify_place_scores [of "''Royal North Shore Hospital, Sydney''"]
          verify_place_scores [of "''St Mary Clinic''"]
          c2 c3
    unfolding n1 n2 n3 hospital_keys
    by auto
qed


section \<open>The graph\<close>

lemma route_labels:
  "route_after_reflection json_loads messages = Inr b \<Longrightarrow>
   b = ''automatic_approval'' \<or> b = ''human_approval''"
  by (auto simp add: route_after_reflection_def route_try_def decide_def try_bind_def
      split: sum.splits if_splits)

lemma builder_edges:
  "edges builder =
     [(START, ''generate''), (''generate'', ''store''), (''store'', ''external_process''),
      (''external_process'', ''reflect''), (''automatic_approval'', END),
      (''human_approval'', END)]"
  by (simp add: builder_def StateGraph_def add_node_def add_edge_def add_conditional_edges_def)

lemma builder_branches: "branches builder = [''reflect'']"
  by (simp add: builder_def StateGraph_def add_node_def add_edge_def add_conditional_edges_def)

lemma route_auto_example:
  \<open>route_after_reflection sample_loads [HumanMessage (PyStr ''"confidence_score": 0.9'')]
   = Inr ''automatic_approval''\<close>
  by code_simp

lemma route_human_example:
  \<open>route_after_reflection sample_loads [HumanMessage (PyStr ''"confidence_score": 0.3'')]
   = Inr ''human_approval''\<close>
  by code_simp

lemma step_builder_only:
  assumes "step builder a b"
  shows "a = START \<and> b = ''generate'' \<or> a = ''generate'' \<and> b = ''store''
       \<or> a = ''store'' \<and> b = ''external_process'' \<or> a = ''external_process'' \<and> b = ''reflect''
       \<or> a = ''reflect'' \<and> b = ''automatic_approval'' \<or> a = ''reflect'' \<and> b = ''human_approval''
       \<or> a = ''automatic_approval'' \<and> b = END \<or> a = ''human_approval'' \<and> b = END"
  using assms
proof cases
  case step_edge
  then show ?thesis
    unfolding builder_edges by (simp only: list.set insert_iff empty_iff prod.inject) argo
next
  case (step_branch json_loads messages)
  then show ?thesis using route_labels [of json_loads messages b]
    unfolding builder_branches by (simp only: list.set insert_iff empty_iff) argo
qed

lemma step_builder_edges:
  "step builder START ''generate''" "step builder ''generate'' ''store''"
  "step builder ''store'' ''external_process''" "step builder ''external_process'' ''reflect''"
  "step builder ''automatic_approval'' END" "step builder ''human_approval'' END"
  by (rule step_edge, simp only: builder_edges list.set insert_iff simp_thms)+

lemma step_builder_branches:
  "step builder ''reflect'' ''automatic_approval''" "step builder ''reflect'' ''human_approval''"
proof -
  have r: "''reflect'' \<in> set (branches builder)"
    by (simp only: builder_branches list.set insert_iff simp_thms)
  show "step builder ''reflect'' ''automatic_approval''"
    by (rule step_branch [OF r route_auto_example])
  show "step builder ''reflect'' ''human_approval''"
    by (rule step_branch [OF r route_human_example])
qed

lemma node_names_distinct:
  "distinct [START, ''generate'', ''store'', ''external_process'', ''reflect'',
             ''automatic_approval'', ''human_approval'', END]"
  by (simp add: START_def END_def)

lemma linear_runs:
  "run G ns \<Longrightarrow>
   (\<forall>a b. step G a b \<longrightarrow>
        a = s \<and> b = g \<or> a = g \<and> b = t \<or> a = t \<and> b = e \<or> a = e \<and> b = r
        \<or> a = r \<and> b = u \<or> a = r \<and> b = h \<or> a = u \<and> b = n \<or> a = h \<and> b = n) \<Longrightarrow>
   distinct [s, g, t, e, r, u, h, n] \<Longrightarrow> START = s \<Longrightarrow>
   ns \<in> {[s], [s, g], [s, g, t], [s, g, t, e], [s, g, t, e, r],
          [s, g, t, e, r, u], [s, g, t, e, r, h],
          [s, g, t, e, r, u, n], [s, g, t, e, r, h, n]}"
proof (induction rule: run.induct)
  case (run_start G)
  then show ?case by simp
next
  case (run_step G ns a b)
  have "a = s \<and> b = g \<or> a = g \<and> b = t \<or> a = t \<and> b = e \<or> a = e \<and> b = r
        \<or> a = r \<and> b = u \<or> a = r \<and> b = h \<or> a = u \<and> b = n \<or> a = h \<and> b = n"
    using run_step.prems(1) run_step.hyps(2) by blast
  moreover have "ns @ [a] \<in> {[s], [s, g], [s, g, t], [s, g, t, e], [s, g, t, e, r],
          [s, g, t, e, r, u], [s, g, t, e, r, h],
          [s, g, t, e, r, u, n], [s, g, t, e, r, h, n]}"
    using run_step.IH run_step.prems by blast
  ultimately show ?case
    using run_step.prems(2) by (auto simp add: snoc_eq_iff_butlast)
qed

lemma linear_prefix:
  "ns \<in> {[s], [s, g], [s, g, t], [s, g, t, e], [s, g, t, e, r],
          [s, g, t, e, r, u], [s, g, t, e, r, h],
          [s, g, t, e, r, u, n], [s, g, t, e, r, h, n]} \<Longrightarrow>
   prefix ns [s, g, t, e, r, u, n] \<or> prefix ns [s, g, t, e, r, h, n]"
  by auto

lemma run_builder_prefix:
  assumes "run builder ns"
  shows "prefix ns approved_path \<or> prefix ns review_path"
  unfolding approved_path_def review_path_def
  by (rule linear_prefix, rule linear_runs [OF assms _ node_names_distinct refl])
     (use step_builder_only in blast)

lemma run_paths: "run builder approved_path" "run builder review_path"
proof -
  have r1: "run builder [START, ''generate'']"
    using run_step [of builder "[]" START "''generate''"] run_start step_builder_edges(1)
    by simp
  have r2: "run builder [START, ''generate'', ''store'']"
    using run_step [of builder "[START]" "''generate''" "''store''"] r1 step_builder_edges(2)
    by simp
  have r3: "run builder [START, ''generate'', ''store'', ''external_process'']"
    using run_step [of builder "[START, ''generate'']" "''store''" "''external_process''"]
      r2 step_builder_edges(3)
    by simp
  have r4: "run builder [START, ''generate'', ''store'', ''external_process'', ''reflect'']"
    using run_step [of builder "[START, ''generate'', ''store'']" "''external_process''"
                       "''reflect''"] r3 step_builder_edges(4)
    by simp
  have a5: "run builder [START, ''generate'', ''store'', ''external_process'', ''reflect'',
                         ''automatic_approval'']"
    using run_step [of builder "[START, ''generate'', ''store'', ''external_process'']"
                       "''reflect''" "''automatic_approval''"] r4 step_builder_branches(1)
    by simp
  have h5: "run builder [START, ''generate'', ''store'', ''external_process'', ''reflect'',
                         ''human_approval'']"
    using run_step [of builder "[START, ''generate'', ''store'', ''external_process'']"
                       "''reflect''" "''human_approval''"] r4 step_builder_branches(2)
    by simp
  show "run builder approved_path"
    using run_step [of builder "[START, ''generate'', ''store'', ''external_process'',
                                 ''reflect'']" "''automatic_approval''" END]
      a5 step_builder_edges(5)
    by (simp add: approved_path_def)
  show "run builder review_path"
    using run_step [of builder "[START, ''generate'', ''store'', ''external_process'',
                                 ''reflect'']" "''human_approval''" END]
      h5 step_builder_edges(6)
    by (simp add: review_path_def)
qed

text \<open>
  C7. The graph is a fixed sequence: a step leads from the start to \<^verbatim>\<open>generate\<close>, then
  \<^verbatim>\<open>store\<close>, \<^verbatim>\<open>external_process\<close> and \<^verbatim>\<open>reflect\<close>, from \<^verbatim>\<open>reflect\<close> to \<^verbatim>\<open>automatic_approval\<close> or
  \<^verbatim>\<open>human_approval\<close> only, and from either to the end; every run from the start is an
  initial part of one of the two full paths, and both full paths are runs.
\<close>

theorem pipeline_order:
  "(step builder a b \<longleftrightarrow>
      a = START \<and> b = ''generate'' \<or> a = ''generate'' \<and> b = ''store''
      \<or> a = ''store'' \<and> b = ''external_process'' \<or> a = ''external_process'' \<and> b = ''reflect''
      \<or> a = ''reflect'' \<and> b = ''automatic_approval'' \<or> a = ''reflect'' \<and> b = ''human_approval''
      \<or> a = ''automatic_approval'' \<and> b = END \<or> a = ''human_approval'' \<and> b = END)
   \<and> (run builder ns \<longrightarrow> prefix ns approved_path \<or> prefix ns review_path)
   \<and> run builder approved_path \<and> run builder review_path"
proof (intro conjI impI iffI)
  assume "step builder a b"
  then show "a = START \<and> b = ''generate'' \<or> a = ''generate'' \<and> b = ''store''
      \<or> a = ''store'' \<and> b = ''external_process'' \<or> a = ''external_process'' \<and> b = ''reflect''
      \<or> a = ''reflect'' \<and> b = ''automatic_approval'' \<or> a = ''reflect'' \<and> b = ''human_approval''
      \<or> a = ''automatic_approval'' \<and> b = END \<or> a = ''human_approval'' \<and> b = END"
    by (rule step_builder_only)
next
  assume "a = START \<and> b = ''generate'' \<or> a = ''generate'' \<and> b = ''store''
      \<or> a = ''store'' \<and> b = ''external_process'' \<or> a = ''external_process'' \<and> b = ''reflect''
      \<or> a = ''reflect'' \<and> b = ''automatic_approval'' \<or> a = ''reflect'' \<and> b = ''human_approval''
      \<or> a = ''automatic_approval'' \<and> b = END \<or> a = ''human_approval'' \<and> b = END"
  then show "step builder a b"
    using step_builder_edges step_builder_branches by (elim disjE conjE) (simp_all only:)
next
  assume "run builder ns"
  then show "prefix ns approved_path \<or> prefix ns review_path"
    by (rule run_builder_prefix)
next
  show "run builder approved_path" by (rule run_paths)
next
  show "run builder review_path" by (rule run_paths)
qed

theorem pipeline_order_witness:
  "step builder ''reflect'' ''human_approval''
   \<and> \<not> step builder ''generate'' ''reflect''
   \<and> run builder [START, ''generate'', ''store'']
   \<and> prefix [START, ''generate'', ''store''] approved_path
   \<and> \<not> run builder [START, ''store'']"
proof -
  have r: "run builder [START, ''generate'', ''store'']"
    using run_step [of builder "[START]" "''generate''" "''store''"]
          run_step [of builder "[]" START "''generate''"] run_start step_builder_edges(1,2)
    by simp
  have p: "prefix [START, ''generate'', ''store''] approved_path"
    by (simp add: approved_path_def)
  have n: "\<not> prefix [START, ''store''] approved_path" "\<not> prefix [START, ''store''] review_path"
    by (simp_all add: approved_path_def review_path_def)
  show ?thesis
    using pipeline_order [of "''reflect''" "''human_approval''" "[START, ''store'']"]
          pipeline_order [of "''generate''" "''reflect''" "[START, ''generate'', ''store'']"]
          r p n
    by (simp add: START_def END_def)
qed


section \<open>The embedding resizer\<close>

lemma map_try_total:
  "(\<And>x. x \<in> set xs \<Longrightarrow> f x = Inr (g x)) \<Longrightarrow> map_try f xs = Inr (map g xs)"
  by (induction xs) (simp_all add: try_bind_simps)

lemma magnitude_value:
  "magnitude vector = Inr (sqrt (sum_list (map (\<lambda>val. val * val) vector)))"
proof -
  have "0 \<le> sum_list (map (\<lambda>val. val * val) vector)"
    by (rule sum_list_nonneg) auto
  then show ?thesis by (simp add: magnitude_def math_sqrt_def)
qed

lemma normalize_vector_value:
  "normalize_vector vector =
     Inr (if sqrt (sum_list (map (\<lambda>val. val * val) vector)) = 0 then vector
          else map (\<lambda>val. val / sqrt (sum_list (map (\<lambda>val. val * val) vector))) vector)"
proof (cases "sqrt (sum_list (map (\<lambda>val. val * val) vector)) = 0")
  case True
  then show ?thesis by (simp add: normalize_vector_def magnitude_value try_bind_simps)
next
  case False
  then have "map_try (\<lambda>val. py_truediv val (sqrt (sum_list (map (\<lambda>val. val * val) vector)))) vector
      = Inr (map (\<lambda>val. val / sqrt (sum_list (map (\<lambda>val. val * val) vector))) vector)"
    by (intro map_try_total) (simp add: py_truediv_def)
  with False show ?thesis by (simp add: normalize_vector_def magnitude_value try_bind_simps)
qed

lemma getitem_range:
  "t \<le> length e \<Longrightarrow> map_try (getitem e) [s..<t] = Inr (map ((!) e) [s..<t])"
  by (intro map_try_total) (simp add: getitem_def)

lemma resize_step_value:
  assumes "i < length result" "result ! i = 0"
  shows "resize_step embedding (real (length embedding) / real target_dimension) i result
         = Inr (result[i := bucket embedding i])"
proof -
  define ratio where "ratio = real (length embedding) / real target_dimension"
  define st where "st = py_int (real i * ratio)"
  define en where "en = (if py_int (real (i + 1) * ratio) > length embedding
                         then length embedding else py_int (real (i + 1) * ratio))"
  have en_min: "en = min (py_int (real (i + 1) * ratio)) (length embedding)"
    by (simp add: en_def min_def)
  have en_le: "en \<le> length embedding"
    by (simp add: en_min)
  have step: "resize_step embedding ratio i result =
     (if st < en then
        try_bind (map_try (getitem embedding) [st..<en]) (\<lambda>vals.
        try_bind (py_truediv (sum_list vals) (real (en - st))) (\<lambda>avg.
          setitem result i avg))
      else Inr result)"
    unfolding resize_step_def Let_def st_def en_def by (rule refl)
  have b: "bucket embedding i =
     (if st < en then (\<Sum>j = st..<en. embedding ! j) / real (en - st) else 0)"
    unfolding bucket_def Let_def st_def en_min ratio_def by (rule refl)
  show ?thesis
  proof (cases "st < en")
    case True
    have g: "map_try (getitem embedding) [st..<en] = Inr (map ((!) embedding) [st..<en])"
      using en_le by (rule getitem_range)
    have s: "sum_list (map ((!) embedding) [st..<en]) = (\<Sum>j = st..<en. embedding ! j)"
      by (simp add: interv_sum_list_conv_sum_set_nat)
    have d: "py_truediv (\<Sum>j = st..<en. embedding ! j) (real (en - st))
             = Inr ((\<Sum>j = st..<en. embedding ! j) / real (en - st))"
      using True by (simp add: py_truediv_def)
    have d': "py_truediv x (real en - real st) = Inr (x / (real en - real st))" for x
      using True by (simp add: py_truediv_def)
    show ?thesis
      unfolding ratio_def [symmetric] step b
      using True assms(1) by (simp add: g s d d' try_bind_simps setitem_def)
  next
    case False
    then have "result[i := bucket embedding i] = result"
      using assms b by (metis list_update_id)
    then show ?thesis
      unfolding ratio_def [symmetric] step using False by simp
  qed
qed

lemma resize_loop_append:
  "resize_loop e ratio (xs @ ys) r
   = try_bind (resize_loop e ratio xs r) (resize_loop e ratio ys)"
  by (induction xs arbitrary: r) (auto simp add: try_bind_def split: sum.splits)

lemma resize_loop_value:
  "n \<le> N \<Longrightarrow>
   resize_loop embedding (real (length embedding) / real target_dimension) [0..<n] (replicate N 0)
   = Inr (map (bucket embedding) [0..<n] @ replicate (N - n) 0)"
proof (induction n)
  case 0
  then show ?case by simp
next
  case (Suc n)
  let ?r = "map (bucket embedding) [0..<n] @ replicate (N - n) 0"
  have l: "n < length ?r" using Suc.prems by simp
  have z: "?r ! n = 0" using Suc.prems by (simp add: nth_append)
  have u: "?r[n := bucket embedding n]
         = map (bucket embedding) [0..<Suc n] @ replicate (N - Suc n) 0"
  proof -
    obtain k where k: "N - n = Suc k" "N - Suc n = k"
      using Suc.prems by (metis Suc_diff_Suc Suc_le_lessD)
    show ?thesis
      by (simp add: list_update_append k)
  qed
  show ?case
    using Suc resize_step_value [OF l z, of embedding]
    by (simp add: resize_loop_append try_bind_simps u del: upt_Suc add: upt_Suc_append)
qed

lemma resize_embedding_value:
  "length embedding \<noteq> target_dimension \<Longrightarrow>
   resize_embedding embedding = normalize_vector (bucket_average embedding)"
  using resize_loop_value [of target_dimension target_dimension embedding]
  by (simp add: resize_embedding_def py_truediv_def target_dimension_def try_bind_simps
      bucket_average_def)

text \<open>
  C9. For every embedding, \<^verbatim>\<open>resize_embedding\<close> returns a list of exactly 384 elements: the
  input itself when it has 384 elements, and otherwise the vector of bucket averages
  normalised by \<^verbatim>\<open>normalize_vector\<close>. Nothing in it raises.
\<close>

theorem resize_embedding_dimension:
  "\<exists>r. resize_embedding embedding = Inr r \<and> length r = 384
       \<and> (length embedding = 384 \<longrightarrow> r = embedding)
       \<and> (length embedding \<noteq> 384 \<longrightarrow> normalize_vector (bucket_average embedding) = Inr r)"
proof (cases "length embedding = 384")
  case True
  then show ?thesis by (simp add: resize_embedding_def target_dimension_def)
next
  case False
  then have v: "resize_embedding embedding = normalize_vector (bucket_average embedding)"
    by (simp add: resize_embedding_value target_dimension_def)
  have l: "length (bucket_average embedding) = 384"
    by (simp add: bucket_average_def target_dimension_def)
  show ?thesis
    using False l by (simp add: v normalize_vector_value [of "bucket_average embedding"])
qed

theorem resize_embedding_dimension_witness:
  "(\<exists>r. resize_embedding [] = Inr r \<and> length r = 384
        \<and> normalize_vector (bucket_average []) = Inr r)
   \<and> resize_embedding (replicate 384 1) = Inr (replicate 384 1)"
  using resize_embedding_dimension [of "[]"] resize_embedding_dimension [of "replicate 384 1"]
  by simp

text \<open>
  C10. \<^verbatim>\<open>normalize_vector\<close> never raises, so it never divides by zero: it returns a list as
  long as its input, and the input itself when the magnitude is zero.
\<close>

theorem normalize_vector_total:
  "\<exists>r. normalize_vector vector = Inr r \<and> length r = length vector
       \<and> (magnitude vector = Inr 0 \<longrightarrow> r = vector)"
  by (simp add: normalize_vector_value magnitude_value)

theorem normalize_vector_total_witness:
  "magnitude [0, 0] = Inr 0 \<and> normalize_vector [0, 0] = Inr [0, 0]
   \<and> (\<exists>r. normalize_vector [3, 4] = Inr r \<and> length r = 2)"
proof -
  have m: "magnitude [0, 0] = Inr 0"
    by (simp add: magnitude_value)
  show ?thesis
    using normalize_vector_total [of "[0, 0]"] normalize_vector_total [of "[3, 4]"] m
    by auto
qed

end
